theory Spec2Isabelle
  imports Main "HOL-Library.Word"
begin

section \<open>Go values and types as the reflective codec sees them\<close>

text \<open>
  The codec of go-ssz works on \<^verbatim>\<open>reflect.Value\<close> and \<^verbatim>\<open>reflect.Type\<close>.
  A type is a term of \<open>rtype\<close>, a value a term of \<open>rvalue\<close>; a byte is an
  8-bit word, a byte slice a list of bytes, and an index or offset (Go's
  \<^verbatim>\<open>uint64\<close>) a natural number: no buffer of the program reaches
  \<open>2 ^ 64\<close> bytes, so these never wrap.  Offsets written to the wire are
  truncated to 32 bits exactly where the source converts with \<^verbatim>\<open>uint32(...)\<close>.

  A function of the source that returns \<^verbatim>\<open>(uint64, error)\<close> returns
  \<open>error + ...\<close> here: \<open>Inl (Error msg)\<close> is a returned Go error,
  \<open>Inl (Panic msg)\<close> a run-time panic (index out of range, a slice
  expression out of bounds, a reflect call on the wrong kind, division by zero).
  A destination that the source mutates through reflection is passed in and
  returned updated.

  Restrictions of the model, all on the input: a nil slice and an empty slice are
  the same value; struct fields carry no \<^verbatim>\<open>ssz-size\<close> tag (so
  \<^verbatim>\<open>determineFieldType\<close> returns the declared type) and no field name
  contains \<^verbatim>\<open>XXX_\<close>; the kind \<^verbatim>\<open>Int32\<close> is left out; a byte slice has
  capacity equal to its length.
\<close>

type_synonym byte = "8 word"

datatype error = Error string | Panic string

datatype rtype =
    TBool | TUint8 | TUint16 | TUint32 | TUint64 | TString | TComplex128
  | TSlice rtype
  | TArray nat rtype
  | TPtr rtype
  | TStruct "StructField list"
and StructField = StructField (Name: string) (Type: rtype) (ssz_max: "string option")

datatype rvalue =
    VBool bool
  | VUint8 "8 word" | VUint16 "16 word" | VUint32 "32 word" | VUint64 "64 word"
  | VString string
  | VComplex128
  | VSlice "rvalue list"
  | VArray "rvalue list"
  | VPtr "rvalue option"
  | VStruct "rvalue list"

text \<open>
  \<^verbatim>\<open>reflect.Zero(typ)\<close>, the value \<^verbatim>\<open>reflect.New(typ).Elem()\<close> holds.
\<close>

lemma size_field_type [termination_simp]:
  "f \<in> set fs \<Longrightarrow> size (Type f) < Suc (size_list size fs)"
proof (induction fs)
  case Nil
  then show ?case by simp
next
  case (Cons g gs)
  then show ?case by (cases f) auto
qed

fun Zero :: "rtype \<Rightarrow> rvalue" where
  "Zero TBool = VBool False"
| "Zero TUint8 = VUint8 0"
| "Zero TUint16 = VUint16 0"
| "Zero TUint32 = VUint32 0"
| "Zero TUint64 = VUint64 0"
| "Zero TString = VString []"
| "Zero TComplex128 = VComplex128"
| "Zero (TSlice t) = VSlice []"
| "Zero (TArray n t) = VArray (replicate n (Zero t))"
| "Zero (TPtr t) = VPtr None"
| "Zero (TStruct fs) = VStruct (map (\<lambda>f. Zero (Type f)) fs)"

text \<open>\<^verbatim>\<open>typ.Elem()\<close>; \<open>None\<close> where reflect panics.\<close>

fun Elem :: "rtype \<Rightarrow> rtype option" where
  "Elem (TSlice t) = Some t"
| "Elem (TArray n t) = Some t"
| "Elem (TPtr t) = Some t"
| "Elem _ = None"

text \<open>
  The elements \<^verbatim>\<open>val.Index(0)\<close>, ..., \<^verbatim>\<open>val.Index(val.Len()-1)\<close> of a slice or an
  array; \<open>None\<close> where \<^verbatim>\<open>val.Len()\<close> panics. \<open>SetElems\<close> stores elements
  back into a value of the same kind.
\<close>

fun Elems :: "rvalue \<Rightarrow> rvalue list option" where
  "Elems (VSlice vs) = Some vs"
| "Elems (VArray vs) = Some vs"
| "Elems _ = None"

fun SetElems :: "rvalue \<Rightarrow> rvalue list \<Rightarrow> rvalue" where
  "SetElems (VSlice old) vs = VSlice vs"
| "SetElems (VArray old) vs = VArray vs"
| "SetElems val vs = val"

text \<open>\<^verbatim>\<open>val.Field(i)\<close> and the assignment to it.\<close>

fun Field :: "rvalue \<Rightarrow> nat \<Rightarrow> error + rvalue" where
  "Field (VStruct vs) i =
     (if i < length vs then Inr (vs ! i) else Inl (Panic ''reflect: Field index out of range''))"
| "Field _ i = Inl (Panic ''reflect: call of Value.Field on a non-struct'')"

fun SetField :: "rvalue \<Rightarrow> nat \<Rightarrow> rvalue \<Rightarrow> rvalue" where
  "SetField (VStruct vs) i v = VStruct (vs[i := v])"
| "SetField val i v = val"

subsection \<open>Byte slices and encoding/binary\<close>

text \<open>
  \<open>le_bytes n v\<close> are the \<open>n\<close> low bytes of \<open>v\<close>, lowest first, and \<open>le_nat\<close>
  reads such bytes back. \<^verbatim>\<open>binary.LittleEndian.UintN(b)\<close> panics on a slice
  shorter than \<open>N / 8\<close> bytes (its bounds check \<^verbatim>\<open>_ = b[N/8-1]\<close>).
\<close>

fun le_bytes :: "nat \<Rightarrow> nat \<Rightarrow> byte list" where
  "le_bytes 0 v = []"
| "le_bytes (Suc n) v = of_nat (v mod 256) # le_bytes n (v div 256)"

fun le_nat :: "byte list \<Rightarrow> nat" where
  "le_nat [] = 0"
| "le_nat (b # bs) = unat b + 256 * le_nat bs"

definition PutUint16 :: "16 word \<Rightarrow> byte list" where
  "PutUint16 v = le_bytes (Suc (Suc 0)) (unat v)"

definition PutUint32 :: "32 word \<Rightarrow> byte list" where
  "PutUint32 v = le_bytes (Suc (Suc (Suc (Suc 0)))) (unat v)"

definition PutUint64 :: "64 word \<Rightarrow> byte list" where
  "PutUint64 v = le_bytes (Suc (Suc (Suc (Suc (Suc (Suc (Suc (Suc 0)))))))) (unat v)"

definition Uint16 :: "byte list \<Rightarrow> error + 16 word" where
  "Uint16 b = (if length b < 2 then Inl (Panic ''index out of range'')
               else Inr (of_nat (le_nat (take 2 b))))"

definition Uint32 :: "byte list \<Rightarrow> error + 32 word" where
  "Uint32 b = (if length b < 4 then Inl (Panic ''index out of range'')
               else Inr (of_nat (le_nat (take 4 b))))"

definition Uint64 :: "byte list \<Rightarrow> error + 64 word" where
  "Uint64 b = (if length b < 8 then Inl (Panic ''index out of range'')
               else Inr (of_nat (le_nat (take 8 b))))"

text \<open>The slice expression \<^verbatim>\<open>xs[lo:hi]\<close>.\<close>

definition slice :: "'a list \<Rightarrow> nat \<Rightarrow> nat \<Rightarrow> error + 'a list" where
  "slice xs lo hi =
     (if lo \<le> hi \<and> hi \<le> length xs then Inr (drop lo (take hi xs))
      else Inl (Panic ''slice bounds out of range''))"

text \<open>\<^verbatim>\<open>copy(buf[lo:lo+len(src)], src)\<close>.\<close>

definition copy_to :: "byte list \<Rightarrow> nat \<Rightarrow> byte list \<Rightarrow> error + byte list" where
  "copy_to buf lo src =
     (if lo + length src \<le> length buf
      then Inr (take lo buf @ src @ drop (lo + length src) buf)
      else Inl (Panic ''slice bounds out of range''))"

definition BytesPerLengthOffset :: nat where
  "BytesPerLengthOffset = 4"

text \<open>
  Reading the offset stored at \<open>at\<close>:
  \<^verbatim>\<open>startOffset + uint64(binary.LittleEndian.Uint32(input[at : at+BytesPerLengthOffset]))\<close>.
\<close>

definition read_offset :: "byte list \<Rightarrow> nat \<Rightarrow> nat \<Rightarrow> error + nat" where
  "read_offset input startOffset at =
     (case slice input at (at + BytesPerLengthOffset) of
        Inl e \<Rightarrow> Inl e
      | Inr offsetVal \<Rightarrow>
          (case Uint32 offsetVal of
             Inl e \<Rightarrow> Inl e
           | Inr w \<Rightarrow> Inr (startOffset + unat w)))"

text \<open>
  Writing an offset:
  \<^verbatim>\<open>binary.LittleEndian.PutUint32(offsetBuf, uint32(currentOffsetIndex-startOffset));
  copy(buf[fixedIndex:fixedIndex+BytesPerLengthOffset], offsetBuf)\<close>.
\<close>

definition write_offset :: "byte list \<Rightarrow> nat \<Rightarrow> nat \<Rightarrow> nat \<Rightarrow> error + byte list" where
  "write_offset buf fixedIndex currentOffsetIndex startOffset =
     copy_to buf fixedIndex (PutUint32 (of_nat (currentOffsetIndex - startOffset)))"

text \<open>The interface \<^verbatim>\<open>SSZAble\<close>: what \<^verbatim>\<open>SSZFactory\<close> hands out.\<close>

type_synonym marshal_fn = "rvalue \<Rightarrow> rtype \<Rightarrow> byte list \<Rightarrow> nat \<Rightarrow> error + (nat \<times> byte list)"
type_synonym unmarshal_fn = "rvalue \<Rightarrow> rtype \<Rightarrow> byte list \<Rightarrow> nat \<Rightarrow> error + (nat \<times> rvalue)"

record SSZAble =
  Marshal :: marshal_fn
  Unmarshal :: unmarshal_fn

section \<open>Parts of the repository that are not among the sources\<close>

text \<open>
  Modelled from the spec: \<^verbatim>\<open>isVariableSizeType\<close> (types/determine_size.go is
  missing) is the negation of the spec's \<open>is_fixed\<close>: booleans and unsigned
  integers are fixed; a list is variable; a vector is fixed iff its element is; a
  container is fixed iff every field is; a pointer stands for its pointee.  A
  string has as many bytes as the value has, so it is variable.
\<close>

fun isVariableSizeType :: "rtype \<Rightarrow> bool" where
  "isVariableSizeType (TSlice t) = True"
| "isVariableSizeType TString = True"
| "isVariableSizeType (TArray n t) = isVariableSizeType t"
| "isVariableSizeType (TStruct fs) = list_ex (\<lambda>f. isVariableSizeType (Type f)) fs"
| "isVariableSizeType (TPtr t) = isVariableSizeType t"
| "isVariableSizeType _ = False"

text \<open>
  Modelled from the spec: \<^verbatim>\<open>determineFixedSize\<close> (missing) is the spec's
  \<open>fixed_size\<close>, a function of the schema alone: 1, 1, 2, 4, 8 bytes for the
  primitives, the product for vectors, the sum over the fields for containers.
  The spec defines it for fixed schemas only; it is 0 here on the others.
\<close>

fun determineFixedSize :: "rvalue \<Rightarrow> rtype \<Rightarrow> nat" where
  "determineFixedSize val TBool = 1"
| "determineFixedSize val TUint8 = 1"
| "determineFixedSize val TUint16 = 2"
| "determineFixedSize val TUint32 = 4"
| "determineFixedSize val TUint64 = 8"
| "determineFixedSize val (TArray n t) = n * determineFixedSize (Zero t) t"
| "determineFixedSize val (TStruct fs) =
     sum_list (map (\<lambda>f. determineFixedSize (Zero (Type f)) (Type f)) fs)"
| "determineFixedSize val (TPtr t) = determineFixedSize (Zero t) t"
| "determineFixedSize val _ = 0"

text \<open>
  Modelled from the spec: \<^verbatim>\<open>DetermineSize\<close> (missing) is the spec's
  \<open>schema_size\<close>, the length of the serialization: the fixed size of a fixed
  schema; for a variable one the fixed prefix (4 bytes of offset per variable
  child) plus the children; a nil pointer counts as the zero value of its pointee.
  A \<^verbatim>\<open>reflect.Value\<close> knows its type; here the type is the second argument.
\<close>

function DetermineSize :: "rvalue \<Rightarrow> rtype \<Rightarrow> nat" where
  "DetermineSize val typ =
     (case typ of
        TPtr t \<Rightarrow>
          (case val of
             VPtr (Some e) \<Rightarrow> DetermineSize e t
           | _ \<Rightarrow> DetermineSize (Zero t) t)
      | TString \<Rightarrow> (case val of VString s \<Rightarrow> length s | _ \<Rightarrow> 0)
      | TSlice t \<Rightarrow>
          (case val of
             VSlice vs \<Rightarrow>
               if isVariableSizeType t
               then sum_list (map (\<lambda>v. BytesPerLengthOffset + DetermineSize v t) vs)
               else sum_list (map (\<lambda>v. DetermineSize v t) vs)
           | _ \<Rightarrow> 0)
      | TArray n t \<Rightarrow>
          (case val of
             VArray vs \<Rightarrow>
               if isVariableSizeType t
               then sum_list (map (\<lambda>v. BytesPerLengthOffset + DetermineSize v t) vs)
               else determineFixedSize val typ
           | _ \<Rightarrow> determineFixedSize val typ)
      | TStruct fs \<Rightarrow>
          (case val of
             VStruct vs \<Rightarrow>
               if isVariableSizeType typ
               then sum_list (map (\<lambda>(v, f).
                      if isVariableSizeType (Type f)
                      then BytesPerLengthOffset + DetermineSize v (Type f)
                      else determineFixedSize v (Type f)) (zip vs fs))
               else determineFixedSize val typ
           | _ \<Rightarrow> determineFixedSize val typ)
      | _ \<Rightarrow> determineFixedSize val typ)"
  by pat_completeness auto
termination
  by (relation "measure (\<lambda>(val, typ). size typ)") (auto dest: set_zip_rightD size_field_type)

text \<open>
  Modelled from the spec: \<^verbatim>\<open>growConcreteSliceType(val, typ, n)\<close> (missing) grows
  a list destination in place to \<open>n\<close> elements; the decoders of decode.go do it
  inline with \<^verbatim>\<open>reflect.MakeSlice(typ, n, n); reflect.Copy(newVal, val); val.Set(newVal)\<close>.
  \<open>et\<close> is the element type.
\<close>

definition growConcreteSliceType :: "rvalue list \<Rightarrow> rtype \<Rightarrow> nat \<Rightarrow> rvalue list" where
  "growConcreteSliceType vs et n = take n vs @ replicate (n - length vs) (Zero et)"

text \<open>
  Modelled from the spec: \<^verbatim>\<open>instantiateConcreteTypeForElement\<close> (missing): at
  decode time a nil destination is instantiated with the zero value of the schema
  that is traversed into.
\<close>

fun instantiateConcreteTypeForElement :: "rvalue \<Rightarrow> rtype \<Rightarrow> rvalue" where
  "instantiateConcreteTypeForElement (VPtr None) t = VPtr (Some (Zero t))"
| "instantiateConcreteTypeForElement val t = val"

text \<open>
  \<^verbatim>\<open>if v.Kind() == reflect.Ptr { instantiateConcreteTypeForElement(v, t.Elem()) }\<close>
  for a value \<open>v\<close> of type \<open>t\<close>.
\<close>

fun instantiate_if_Ptr :: "rvalue \<Rightarrow> rtype \<Rightarrow> error + rvalue" where
  "instantiate_if_Ptr (VPtr p) t =
     (case Elem t of
        None \<Rightarrow> Inl (Panic ''reflect: Elem of invalid type'')
      | Some t' \<Rightarrow> Inr (instantiateConcreteTypeForElement (VPtr p) t'))"
| "instantiate_if_Ptr v t = Inr v"

text \<open>
  Modelled from the spec: the primitive codec \<^verbatim>\<open>basicSSZ\<close> (types/basic.go is
  missing). Bool: one byte, \<open>0\<close> or \<open>1\<close>, any other byte fails to decode with
  InvalidBool. Unsigned integers: little endian, 1, 2, 4 or 8 bytes. A decode with
  too few bytes fails with ShortInput.
\<close>

definition write_bytes :: "byte list \<Rightarrow> nat \<Rightarrow> byte list \<Rightarrow> error + (nat \<times> byte list)" where
  "write_bytes buf startOffset bs =
     (case copy_to buf startOffset bs of
        Inl e \<Rightarrow> Inl e
      | Inr buf' \<Rightarrow> Inr (startOffset + length bs, buf'))"

fun basicSSZ_Marshal :: marshal_fn where
  "basicSSZ_Marshal (VBool b) typ buf startOffset = write_bytes buf startOffset [if b then 1 else 0]"
| "basicSSZ_Marshal (VUint8 v) typ buf startOffset = write_bytes buf startOffset [v]"
| "basicSSZ_Marshal (VUint16 v) typ buf startOffset = write_bytes buf startOffset (PutUint16 v)"
| "basicSSZ_Marshal (VUint32 v) typ buf startOffset = write_bytes buf startOffset (PutUint32 v)"
| "basicSSZ_Marshal (VUint64 v) typ buf startOffset = write_bytes buf startOffset (PutUint64 v)"
| "basicSSZ_Marshal _ typ buf startOffset = Inl (Error ''unsupported kind'')"

definition read_bytes :: "byte list \<Rightarrow> nat \<Rightarrow> nat \<Rightarrow> error + byte list" where
  "read_bytes input startOffset n =
     (if startOffset + n \<le> length input then Inr (take n (drop startOffset input))
      else Inl (Error ''ShortInput''))"

fun basicSSZ_Unmarshal :: unmarshal_fn where
  "basicSSZ_Unmarshal val TBool input startOffset =
     (case read_bytes input startOffset 1 of
        Inl e \<Rightarrow> Inl e
      | Inr bs \<Rightarrow>
          if bs = [0] then Inr (startOffset + 1, VBool False)
          else if bs = [1] then Inr (startOffset + 1, VBool True)
          else Inl (Error ''InvalidBool''))"
| "basicSSZ_Unmarshal val TUint8 input startOffset =
     (case read_bytes input startOffset 1 of
        Inl e \<Rightarrow> Inl e
      | Inr bs \<Rightarrow> Inr (startOffset + 1, VUint8 (of_nat (le_nat bs))))"
| "basicSSZ_Unmarshal val TUint16 input startOffset =
     (case read_bytes input startOffset 2 of
        Inl e \<Rightarrow> Inl e
      | Inr bs \<Rightarrow> Inr (startOffset + 2, VUint16 (of_nat (le_nat bs))))"
| "basicSSZ_Unmarshal val TUint32 input startOffset =
     (case read_bytes input startOffset 4 of
        Inl e \<Rightarrow> Inl e
      | Inr bs \<Rightarrow> Inr (startOffset + 4, VUint32 (of_nat (le_nat bs))))"
| "basicSSZ_Unmarshal val TUint64 input startOffset =
     (case read_bytes input startOffset 8 of
        Inl e \<Rightarrow> Inl e
      | Inr bs \<Rightarrow> Inr (startOffset + 8, VUint64 (of_nat (le_nat bs))))"
| "basicSSZ_Unmarshal val _ input startOffset = Inl (Error ''unsupported kind'')"

definition basicSSZ :: SSZAble where
  "basicSSZ = \<lparr>Marshal = basicSSZ_Marshal, Unmarshal = basicSSZ_Unmarshal\<rparr>"

text \<open>A Go string is a sequence of bytes; \<open>char\<close> is a byte as well.\<close>

definition byte_of_char :: "char \<Rightarrow> byte" where
  "byte_of_char c = of_nat (of_char c)"

definition char_of_byte :: "byte \<Rightarrow> char" where
  "char_of_byte b = char_of (unat b)"

section \<open>types/string.go\<close>

text \<open>
  \<^verbatim>\<open>for i := 0; i < val.Len(); i++ { buf[int(startOffset)+i] = uint8(val.Index(i).Uint()) }\<close>
  The loop over the bytes of the string, \<open>pos\<close> being \<open>startOffset + i\<close>;
  a write past the end of \<open>buf\<close> panics.
\<close>

fun stringSSZ_Marshal_loop :: "string \<Rightarrow> byte list \<Rightarrow> nat \<Rightarrow> error + byte list" where
  "stringSSZ_Marshal_loop [] buf pos = Inr buf"
| "stringSSZ_Marshal_loop (c # cs) buf pos =
     (if pos < length buf
      then stringSSZ_Marshal_loop cs (buf[pos := byte_of_char c]) (pos + 1)
      else Inl (Panic ''index out of range''))"

fun stringSSZ_Marshal :: "rvalue \<Rightarrow> rtype \<Rightarrow> byte list \<Rightarrow> nat \<Rightarrow> error + (nat \<times> byte list)" where
  "stringSSZ_Marshal (VString s) typ buf startOffset =
     (case stringSSZ_Marshal_loop s buf startOffset of
        Inl e \<Rightarrow> Inl e
      | Inr buf' \<Rightarrow> Inr (startOffset + length s, buf'))"
| "stringSSZ_Marshal _ typ buf startOffset = Inl (Panic ''reflect: call of Value.Len on a non-string'')"

text \<open>
  \<^verbatim>\<open>offset := startOffset + uint64(len(input)); val.SetString(string(input[startOffset:offset]))\<close>
  The slice expression panics when \<open>offset\<close> exceeds the capacity, here the
  length; \<^verbatim>\<open>SetString\<close> panics on a value that is not a string.
\<close>

fun stringSSZ_Unmarshal :: "rvalue \<Rightarrow> rtype \<Rightarrow> byte list \<Rightarrow> nat \<Rightarrow> error + (nat \<times> rvalue)" where
  "stringSSZ_Unmarshal (VString old) typ input startOffset =
     (let offset = startOffset + length input in
      if offset \<le> length input
      then Inr (offset, VString (map char_of_byte (drop startOffset (take offset input))))
      else Inl (Panic ''slice bounds out of range''))"
| "stringSSZ_Unmarshal _ typ input startOffset = Inl (Panic ''reflect: call of Value.SetString on a non-string'')"

definition stringSSZ :: SSZAble where
  "stringSSZ = \<lparr>Marshal = stringSSZ_Marshal, Unmarshal = stringSSZ_Unmarshal\<rparr>"

section \<open>The collection codecs: types/slice_basic.go, types/array_basic.go,
  types/slice_composite.go (src/unnamed/part_001), types/array_composite.go\<close>

text \<open>
  Every codec asks \<^verbatim>\<open>SSZFactory(val.Index(0), typ.Elem())\<close> for the codec of
  its elements. \<^verbatim>\<open>SSZFactory\<close> looks at the type only, so each codec below
  takes the outcome of that call as its first argument \<open>fac\<close>: an error or the
  element codec.

  The loop \<^verbatim>\<open>for i := 0; i < val.Len(); i++ { index, err = factory.Marshal(val.Index(i),
  typ.Elem(), buf, index); if err != nil { return 0, err } }\<close>:
\<close>

fun marshal_elements :: "SSZAble \<Rightarrow> rtype \<Rightarrow> rvalue list \<Rightarrow> byte list \<Rightarrow> nat \<Rightarrow> error + (nat \<times> byte list)" where
  "marshal_elements factory et [] buf index = Inr (index, buf)"
| "marshal_elements factory et (v # vs) buf index =
     (case Marshal factory v et buf index of
        Inl err \<Rightarrow> Inl err
      | Inr (index', buf') \<Rightarrow> marshal_elements factory et vs buf' index')"

text \<open>
  The loop of the variable-size case: each element is marshaled at
  \<open>currentOffsetIndex\<close>, then its offset \<^verbatim>\<open>uint32(currentOffsetIndex-startOffset)\<close>
  is written at \<open>fixedIndex\<close>.
\<close>

fun marshal_elements_with_offsets ::
  "SSZAble \<Rightarrow> rtype \<Rightarrow> rvalue list \<Rightarrow> byte list \<Rightarrow> nat \<Rightarrow> nat \<Rightarrow> nat \<Rightarrow> error + (nat \<times> byte list)" where
  "marshal_elements_with_offsets factory et [] buf startOffset fixedIndex currentOffsetIndex =
     Inr (currentOffsetIndex, buf)"
| "marshal_elements_with_offsets factory et (v # vs) buf startOffset fixedIndex currentOffsetIndex =
     (case Marshal factory v et buf currentOffsetIndex of
        Inl err \<Rightarrow> Inl err
      | Inr (nextOffsetIndex, buf') \<Rightarrow>
          (case write_offset buf' fixedIndex currentOffsetIndex startOffset of
             Inl e \<Rightarrow> Inl e
           | Inr buf'' \<Rightarrow>
               marshal_elements_with_offsets factory et vs buf'' startOffset
                 (fixedIndex + BytesPerLengthOffset) nextOffsetIndex))"

definition basicSliceSSZ_Marshal :: "error + SSZAble \<Rightarrow> marshal_fn" where
  "basicSliceSSZ_Marshal fac val typ buf startOffset =
     (case Elems val of
        None \<Rightarrow> Inl (Panic ''reflect: call of Value.Len on a wrong kind'')
      | Some vs \<Rightarrow>
          if length vs = 0 then Inr (startOffset, buf)
          else
            (case Elem typ of
               None \<Rightarrow> Inl (Panic ''reflect: Elem of invalid type'')
             | Some et \<Rightarrow>
                 (case fac of
                    Inl err \<Rightarrow> Inl err
                  | Inr factory \<Rightarrow> marshal_elements factory et vs buf startOffset)))"

definition basicArraySSZ_Marshal :: "error + SSZAble \<Rightarrow> marshal_fn" where
  "basicArraySSZ_Marshal fac val typ buf startOffset =
     (case Elems val of
        None \<Rightarrow> Inl (Panic ''reflect: call of Value.Len on a wrong kind'')
      | Some vs \<Rightarrow>
          if length vs = 0 then Inr (startOffset, buf)
          else
            (case Elem typ of
               None \<Rightarrow> Inl (Panic ''reflect: Elem of invalid type'')
             | Some et \<Rightarrow>
                 (case fac of
                    Inl err \<Rightarrow> Inl err
                  | Inr factory \<Rightarrow> marshal_elements factory et vs buf startOffset)))"

definition compositeSliceSSZ_Marshal :: "error + SSZAble \<Rightarrow> marshal_fn" where
  "compositeSliceSSZ_Marshal fac val typ buf startOffset =
     (case Elems val of
        None \<Rightarrow> Inl (Panic ''reflect: call of Value.Len on a wrong kind'')
      | Some vs \<Rightarrow>
          if length vs = 0 then Inr (startOffset, buf)
          else
            (case Elem typ of
               None \<Rightarrow> Inl (Panic ''reflect: Elem of invalid type'')
             | Some et \<Rightarrow>
                 (case fac of
                    Inl err \<Rightarrow> Inl err
                  | Inr factory \<Rightarrow>
                      if \<not> isVariableSizeType et
                      then marshal_elements factory et vs buf startOffset
                      else marshal_elements_with_offsets factory et vs buf startOffset startOffset
                             (startOffset + length vs * BytesPerLengthOffset))))"

definition compositeArraySSZ_Marshal :: "error + SSZAble \<Rightarrow> marshal_fn" where
  "compositeArraySSZ_Marshal fac val typ buf startOffset =
     (case Elems val of
        None \<Rightarrow> Inl (Panic ''reflect: call of Value.Len on a wrong kind'')
      | Some vs \<Rightarrow>
          if length vs = 0 then Inr (startOffset, buf)
          else
            (case Elem typ of
               None \<Rightarrow> Inl (Panic ''reflect: Elem of invalid type'')
             | Some et \<Rightarrow>
                 (case fac of
                    Inl err \<Rightarrow> Inl err
                  | Inr factory \<Rightarrow>
                      if \<not> isVariableSizeType et
                      then marshal_elements factory et vs buf startOffset
                      else marshal_elements_with_offsets factory et vs buf startOffset startOffset
                             (startOffset + length vs * BytesPerLengthOffset))))"

text \<open>
  \<^verbatim>\<open>basicSliceSSZ.Unmarshal\<close>. Without size tags \<^verbatim>\<open>val.Type() == typ\<close>, so the
  branches for \<^verbatim>\<open>val.Type() != typ\<close> are not taken. The first element is decoded
  to learn \<open>elementSize\<close>; \<^verbatim>\<open>index - startOffset\<close> is a \<^verbatim>\<open>uint64\<close>
  subtraction and the division panics on zero. Then the loop
  \<^verbatim>\<open>for i < endOffset { growConcreteSliceType(val, val.Type(), int(i)+1);
  index, err = factory.Unmarshal(val.Index(int(i)), typ.Elem(), input, index); i++ }\<close>.
\<close>

function basicSliceSSZ_Unmarshal_loop ::
  "SSZAble \<Rightarrow> rtype \<Rightarrow> byte list \<Rightarrow> rvalue list \<Rightarrow> nat \<Rightarrow> nat \<Rightarrow> nat \<Rightarrow> error + (nat \<times> rvalue)" where
  "basicSliceSSZ_Unmarshal_loop factory et input vs i endOffset index =
     (if i < endOffset
      then
        (case Unmarshal factory (growConcreteSliceType vs et (i + 1) ! i) et input index of
           Inl err \<Rightarrow> Inl err
         | Inr (index', v) \<Rightarrow>
             basicSliceSSZ_Unmarshal_loop factory et input
               ((growConcreteSliceType vs et (i + 1))[i := v]) (i + 1) endOffset index')
      else Inr (index, VSlice vs))"
  by pat_completeness auto
termination
  by (relation "measure (\<lambda>(factory, et, input, vs, i, endOffset, index). endOffset - i)") auto

definition basicSliceSSZ_Unmarshal :: "error + SSZAble \<Rightarrow> unmarshal_fn" where
  "basicSliceSSZ_Unmarshal fac val typ input startOffset =
     (case val of
        VSlice vs \<Rightarrow>
          if length input = 0 then Inr (0, VSlice [])
          else
            (case Elem typ of
               None \<Rightarrow> Inl (Panic ''reflect: Elem of invalid type'')
             | Some et \<Rightarrow>
                 (case fac of
                    Inl err \<Rightarrow> Inl err
                  | Inr factory \<Rightarrow>
                      (case Unmarshal factory (growConcreteSliceType vs et 1 ! 0) et input startOffset of
                         Inl err \<Rightarrow> Inl err
                       | Inr (index, v) \<Rightarrow>
                           (let elementSize = (if startOffset \<le> index then index - startOffset
                                               else 2 ^ 64 + index - startOffset)
                            in if elementSize = 0 then Inl (Panic ''integer divide by zero'')
                               else basicSliceSSZ_Unmarshal_loop factory et input
                                      ((growConcreteSliceType vs et 1)[0 := v]) 1
                                      (length input div elementSize) index))))
      | _ \<Rightarrow> Inl (Panic ''reflect: value is not a slice''))"

text \<open>
  \<^verbatim>\<open>basicArraySSZ.Unmarshal\<close>: \<open>fac\<close> is \<^verbatim>\<open>SSZFactory(val.Index(i), typ.Elem())\<close>
  and \<open>facPtr\<close> is \<^verbatim>\<open>SSZFactory(val.Index(i), typ.Elem().Elem())\<close>, asked for an
  element that is a pointer.
\<close>

function basicArraySSZ_Unmarshal_loop ::
  "error + SSZAble \<Rightarrow> error + SSZAble \<Rightarrow> rtype \<Rightarrow> byte list \<Rightarrow> rvalue list \<Rightarrow> nat \<Rightarrow> nat \<Rightarrow> error + (nat \<times> rvalue list)" where
  "basicArraySSZ_Unmarshal_loop fac facPtr et input vs i index =
     (if i < length vs
      then
        (case (case vs ! i of
                 VPtr p \<Rightarrow>
                   (case Elem et of
                      None \<Rightarrow> Inl (Panic ''reflect: Elem of invalid type'')
                    | Some et' \<Rightarrow>
                        (case facPtr of
                           Inl err \<Rightarrow> Inl err
                         | Inr factory \<Rightarrow> Inr (factory, instantiateConcreteTypeForElement (VPtr p) et')))
               | v \<Rightarrow> (case fac of Inl err \<Rightarrow> Inl err | Inr factory \<Rightarrow> Inr (factory, v))) of
           Inl err \<Rightarrow> Inl err
         | Inr (factory, v) \<Rightarrow>
             (case Unmarshal factory v et input index of
                Inl err \<Rightarrow> Inl err
              | Inr (index', v') \<Rightarrow>
                  basicArraySSZ_Unmarshal_loop fac facPtr et input (vs[i := v']) (i + 1) index'))
      else Inr (index, vs))"
  by pat_completeness auto
termination
  by (relation "measure (\<lambda>(fac, facPtr, et, input, vs, i, index). length vs - i)") auto

definition basicArraySSZ_Unmarshal :: "error + SSZAble \<Rightarrow> error + SSZAble \<Rightarrow> unmarshal_fn" where
  "basicArraySSZ_Unmarshal fac facPtr val typ input startOffset =
     (case Elems val of
        None \<Rightarrow> Inl (Panic ''reflect: call of Value.Len on a wrong kind'')
      | Some vs \<Rightarrow>
          if length vs = 0 then Inr (startOffset, val)
          else
            (case Elem typ of
               None \<Rightarrow> Inl (Panic ''reflect: Elem of invalid type'')
             | Some et \<Rightarrow>
                 (case basicArraySSZ_Unmarshal_loop fac facPtr et input vs 0 startOffset of
                    Inl err \<Rightarrow> Inl err
                  | Inr (index, vs') \<Rightarrow> Inr (index, SetElems val vs'))))"

text \<open>
  \<^verbatim>\<open>compositeSliceSSZ.Unmarshal\<close>, the loop \<^verbatim>\<open>for currentIndex < firstOffset\<close>.
  A next offset below the current one leaves the loop with \<^verbatim>\<open>break\<close>, and the
  function then returns \<^verbatim>\<open>currentIndex, nil\<close>.
\<close>

function compositeSliceSSZ_Unmarshal_loop ::
  "error + SSZAble \<Rightarrow> rtype \<Rightarrow> byte list \<Rightarrow> nat \<Rightarrow> nat \<Rightarrow> rvalue list \<Rightarrow> nat \<Rightarrow> nat \<Rightarrow> nat \<Rightarrow> error + (nat \<times> rvalue)" where
  "compositeSliceSSZ_Unmarshal_loop fac et input startOffset firstOffset vs i currentIndex currentOffset =
     (if currentIndex < firstOffset
      then
        (case (if currentIndex + BytesPerLengthOffset = firstOffset then Inr (length input)
               else read_offset input startOffset (currentIndex + BytesPerLengthOffset)) of
           Inl e \<Rightarrow> Inl e
         | Inr nextOffset \<Rightarrow>
             if nextOffset < currentOffset then Inr (currentIndex, VSlice vs)
             else
               (case fac of
                  Inl err \<Rightarrow> Inl err
                | Inr factory \<Rightarrow>
                    (case slice input currentOffset nextOffset of
                       Inl e \<Rightarrow> Inl e
                     | Inr sub \<Rightarrow>
                         (case Unmarshal factory (growConcreteSliceType vs et (i + 1) ! i) et sub 0 of
                            Inl err \<Rightarrow> Inl err
                          | Inr (n, v) \<Rightarrow>
                              compositeSliceSSZ_Unmarshal_loop fac et input startOffset firstOffset
                                ((growConcreteSliceType vs et (i + 1))[i := v]) (i + 1)
                                (currentIndex + BytesPerLengthOffset) nextOffset))))
      else Inr (currentIndex, VSlice vs))"
  by pat_completeness auto
termination
  by (relation "measure (\<lambda>(fac, et, input, startOffset, firstOffset, vs, i, currentIndex, currentOffset).
        firstOffset - currentIndex)") (auto simp: BytesPerLengthOffset_def)

definition compositeSliceSSZ_Unmarshal :: "error + SSZAble \<Rightarrow> unmarshal_fn" where
  "compositeSliceSSZ_Unmarshal fac val typ input startOffset =
     (case val of
        VSlice vs \<Rightarrow>
          if length input = 0 then Inr (0, VSlice [])
          else
            (case typ of
               TSlice et \<Rightarrow>
                 (case read_offset input startOffset startOffset of
                    Inl e \<Rightarrow> Inl e
                  | Inr firstOffset \<Rightarrow>
                      compositeSliceSSZ_Unmarshal_loop fac et input startOffset firstOffset
                        (growConcreteSliceType vs et 1) 0 startOffset firstOffset)
             | _ \<Rightarrow> Inl (Panic ''reflect.MakeSlice of non-slice type''))
      | _ \<Rightarrow> Inl (Panic ''reflect: value is not a slice''))"

text \<open>
  \<^verbatim>\<open>compositeArraySSZ.Unmarshal\<close>: the same walk over the offsets, with no
  comparison of the next offset with the current one; the slice expression
  \<^verbatim>\<open>input[currentOffset:nextOffset]\<close> panics when they decrease.
\<close>

function compositeArraySSZ_Unmarshal_loop ::
  "SSZAble \<Rightarrow> rtype \<Rightarrow> byte list \<Rightarrow> nat \<Rightarrow> nat \<Rightarrow> rvalue list \<Rightarrow> nat \<Rightarrow> nat \<Rightarrow> nat \<Rightarrow> error + (nat \<times> rvalue list)" where
  "compositeArraySSZ_Unmarshal_loop factory et input startOffset firstOffset vs i currentIndex currentOffset =
     (if currentIndex < firstOffset
      then
        (case (if currentIndex + BytesPerLengthOffset = firstOffset then Inr (length input)
               else read_offset input startOffset (currentIndex + BytesPerLengthOffset)) of
           Inl e \<Rightarrow> Inl e
         | Inr nextOffset \<Rightarrow>
             if \<not> i < length vs then Inl (Panic ''reflect: array index out of range'')
             else
               (case instantiate_if_Ptr (vs ! i) et of
                  Inl e \<Rightarrow> Inl e
                | Inr vi \<Rightarrow>
                    (case slice input currentOffset nextOffset of
                       Inl e \<Rightarrow> Inl e
                     | Inr sub \<Rightarrow>
                         (case Unmarshal factory vi et sub 0 of
                            Inl err \<Rightarrow> Inl err
                          | Inr (n, v) \<Rightarrow>
                              compositeArraySSZ_Unmarshal_loop factory et input startOffset firstOffset
                                (vs[i := v]) (i + 1) (currentIndex + BytesPerLengthOffset) nextOffset))))
      else Inr (currentIndex, vs))"
  by pat_completeness auto
termination
  by (relation "measure (\<lambda>(factory, et, input, startOffset, firstOffset, vs, i, currentIndex, currentOffset).
        firstOffset - currentIndex)") (auto simp: BytesPerLengthOffset_def)

definition compositeArraySSZ_Unmarshal :: "error + SSZAble \<Rightarrow> unmarshal_fn" where
  "compositeArraySSZ_Unmarshal fac val typ input startOffset =
     (case read_offset input startOffset startOffset of
        Inl e \<Rightarrow> Inl e
      | Inr firstOffset \<Rightarrow>
          (case (case val of
                   VSlice old \<Rightarrow>
                     (case typ of
                        TArray n et \<Rightarrow> Inr (VSlice (replicate n (Zero et)))
                      | _ \<Rightarrow> Inl (Panic ''reflect: Len of non-array type''))
                 | _ \<Rightarrow> Inr val) of
             Inl e \<Rightarrow> Inl e
           | Inr val' \<Rightarrow>
               (case Elems val' of
                  None \<Rightarrow> Inl (Panic ''reflect: call of Value.Index on a wrong kind'')
                | Some vs \<Rightarrow>
                    if length vs = 0 then Inl (Panic ''reflect: array index out of range'')
                    else
                      (case Elem typ of
                         None \<Rightarrow> Inl (Panic ''reflect: Elem of invalid type'')
                       | Some et \<Rightarrow>
                           (case fac of
                              Inl err \<Rightarrow> Inl err
                            | Inr factory \<Rightarrow>
                                (case compositeArraySSZ_Unmarshal_loop factory et input startOffset
                                        firstOffset vs 0 startOffset firstOffset of
                                   Inl err \<Rightarrow> Inl err
                                 | Inr (index, vs') \<Rightarrow> Inr (index, SetElems val' vs')))))))"

section \<open>The structure codec: types/struct.go (in src/types/array_composite.go)\<close>

text \<open>
  \<^verbatim>\<open>determineFieldType\<close>: a field has no \<^verbatim>\<open>ssz-size\<close> tag here,
  \<^verbatim>\<open>parseSSZFieldTags\<close> answers \<^verbatim>\<open>nil, false, nil\<close> and the declared type is
  returned.
\<close>

definition determineFieldType :: "StructField \<Rightarrow> error + rtype" where
  "determineFieldType field = Inr (Type field)"

text \<open>
  \<^verbatim>\<open>strconv.ParseUint(tag, 10, 64)\<close>: the value of a non-empty string of decimal
  digits (the bytes \<^verbatim>\<open>'0'\<close> = 48 to \<^verbatim>\<open>'9'\<close> = 57) that is below \<open>2 ^ 64\<close>;
  \<open>None\<close> for its errors.
\<close>

definition digit_value :: "char \<Rightarrow> nat option" where
  "digit_value c =
     (if 48 \<le> (of_char c :: nat) \<and> (of_char c :: nat) \<le> 57 then Some (of_char c - 48) else None)"

fun parse_digits :: "string \<Rightarrow> nat \<Rightarrow> nat option" where
  "parse_digits [] acc = Some acc"
| "parse_digits (c # cs) acc =
     (case digit_value c of
        None \<Rightarrow> None
      | Some d \<Rightarrow> parse_digits cs (10 * acc + d))"

definition ParseUint :: "string \<Rightarrow> nat option" where
  "ParseUint s =
     (if s = [] then None
      else (case parse_digits s 0 of
              None \<Rightarrow> None
            | Some n \<Rightarrow> if n < 2 ^ 64 then Some n else None))"

text \<open>
  \<^verbatim>\<open>determineFieldCapacity\<close>: the value of the \<^verbatim>\<open>ssz-max\<close> tag, 0 when the
  field has none or it does not parse.
\<close>

definition determineFieldCapacity :: "StructField \<Rightarrow> nat" where
  "determineFieldCapacity field =
     (case ssz_max field of
        None \<Rightarrow> 0
      | Some tag \<Rightarrow> (case ParseUint tag of None \<Rightarrow> 0 | Some val \<Rightarrow> val))"

text \<open>
  \<^verbatim>\<open>structSSZ.Marshal\<close>, first loop: the length of the fixed part. \<open>i\<close> is the
  index of the first of the fields \<open>fs\<close> still to visit.
\<close>

fun structSSZ_fixedLength :: "rvalue \<Rightarrow> StructField list \<Rightarrow> nat \<Rightarrow> nat \<Rightarrow> error + nat" where
  "structSSZ_fixedLength val [] i fixedLength = Inr fixedLength"
| "structSSZ_fixedLength val (f # fs) i fixedLength =
     (case determineFieldType f of
        Inl err \<Rightarrow> Inl err
      | Inr fType \<Rightarrow>
          if isVariableSizeType fType
          then structSSZ_fixedLength val fs (i + 1) (fixedLength + BytesPerLengthOffset)
          else if val = VPtr None
          then structSSZ_fixedLength val fs (i + 1) (fixedLength + determineFixedSize (Zero fType) fType)
          else
            (case Field val i of
               Inl e \<Rightarrow> Inl e
             | Inr fv \<Rightarrow>
                 structSSZ_fixedLength val fs (i + 1) (fixedLength + determineFixedSize fv fType)))"

text \<open>
  Second loop: \<open>ffs\<close> pairs each field still to visit with the outcome of
  \<^verbatim>\<open>SSZFactory(val.Field(i), fType)\<close> for it.
\<close>

fun structSSZ_Marshal_fields ::
  "rvalue \<Rightarrow> (StructField \<times> (error + SSZAble)) list \<Rightarrow> nat \<Rightarrow> byte list \<Rightarrow> nat \<Rightarrow> nat \<Rightarrow> nat
     \<Rightarrow> error + (nat \<times> byte list)" where
  "structSSZ_Marshal_fields val [] i buf startOffset fixedIndex currentOffsetIndex =
     Inr (currentOffsetIndex, buf)"
| "structSSZ_Marshal_fields val ((f, fac) # ffs) i buf startOffset fixedIndex currentOffsetIndex =
     (case determineFieldType f of
        Inl err \<Rightarrow> Inl err
      | Inr fType \<Rightarrow>
          (case Field val i of
             Inl e \<Rightarrow> Inl e
           | Inr fv \<Rightarrow>
               (case fac of
                  Inl err \<Rightarrow> Inl err
                | Inr factory \<Rightarrow>
                    if \<not> isVariableSizeType fType
                    then
                      (case Marshal factory fv fType buf fixedIndex of
                         Inl err \<Rightarrow> Inl err
                       | Inr (fixedIndex', buf') \<Rightarrow>
                           structSSZ_Marshal_fields val ffs (i + 1) buf' startOffset fixedIndex'
                             currentOffsetIndex)
                    else
                      (case Marshal factory fv fType buf currentOffsetIndex of
                         Inl err \<Rightarrow> Inl err
                       | Inr (nextOffsetIndex, buf') \<Rightarrow>
                           (case write_offset buf' fixedIndex currentOffsetIndex startOffset of
                              Inl e \<Rightarrow> Inl e
                            | Inr buf'' \<Rightarrow>
                                structSSZ_Marshal_fields val ffs (i + 1) buf'' startOffset
                                  (fixedIndex + BytesPerLengthOffset) nextOffsetIndex)))))"

text \<open>
  \<^verbatim>\<open>structSSZ.Marshal\<close>: \<open>facs\<close> are the outcomes of \<^verbatim>\<open>SSZFactory\<close> for the
  fields, in order. A pointer type is followed to its pointee, a nil pointer
  being marshaled as \<^verbatim>\<open>reflect.New(typ.Elem()).Elem()\<close>.
\<close>

fun structSSZ_Marshal :: "(error + SSZAble) list \<Rightarrow> marshal_fn" where
  "structSSZ_Marshal facs val (TPtr t) buf startOffset =
     (case val of
        VPtr None \<Rightarrow> structSSZ_Marshal facs (Zero t) t buf startOffset
      | VPtr (Some e) \<Rightarrow> structSSZ_Marshal facs e t buf startOffset
      | _ \<Rightarrow> Inl (Panic ''reflect: call of Value.IsNil on a non-pointer''))"
| "structSSZ_Marshal facs val (TStruct fs) buf startOffset =
     (case structSSZ_fixedLength val fs 0 0 of
        Inl err \<Rightarrow> Inl err
      | Inr fixedLength \<Rightarrow>
          structSSZ_Marshal_fields val (zip fs facs) 0 buf startOffset startOffset
            (startOffset + fixedLength))"
| "structSSZ_Marshal facs val _ buf startOffset = Inl (Panic ''reflect: NumField of non-struct type'')"

text \<open>
  \<^verbatim>\<open>structSSZ.Unmarshal\<close>, first loop: \<open>fixedSizes\<close>, a map from the index of each
  fixed-size field to its size; a nil pointer in such a field is instantiated.
\<close>

fun structSSZ_fixedSizes ::
  "StructField list \<Rightarrow> nat \<Rightarrow> rvalue \<Rightarrow> (nat \<rightharpoonup> nat) \<Rightarrow> error + (rvalue \<times> (nat \<rightharpoonup> nat))" where
  "structSSZ_fixedSizes [] i val fixedSizes = Inr (val, fixedSizes)"
| "structSSZ_fixedSizes (f # fs) i val fixedSizes =
     (case determineFieldType f of
        Inl err \<Rightarrow> Inl err
      | Inr fType \<Rightarrow>
          if isVariableSizeType fType then structSSZ_fixedSizes fs (i + 1) val fixedSizes
          else
            (case Field val i of
               Inl e \<Rightarrow> Inl e
             | Inr fv \<Rightarrow>
                 (case instantiate_if_Ptr fv fType of
                    Inl e \<Rightarrow> Inl e
                  | Inr concreteVal \<Rightarrow>
                      structSSZ_fixedSizes fs (i + 1) (SetField val i concreteVal)
                        (fixedSizes(i \<mapsto> determineFixedSize concreteVal fType)))))"

text \<open>
  Second loop: the offsets of the variable-size fields, each read as 4 bytes with
  \<^verbatim>\<open>binary.LittleEndian.Uint32\<close>; an offset that would lie past the end of the
  input is skipped. \<open>n\<close> counts the fields still to visit.
\<close>

fun structSSZ_offsets ::
  "nat \<Rightarrow> nat \<Rightarrow> (nat \<rightharpoonup> nat) \<Rightarrow> byte list \<Rightarrow> nat \<Rightarrow> nat \<Rightarrow> nat list \<Rightarrow> error + nat list" where
  "structSSZ_offsets 0 i fixedSizes input startOffset offsetIndexCounter offsets = Inr offsets"
| "structSSZ_offsets (Suc n) i fixedSizes input startOffset offsetIndexCounter offsets =
     (case fixedSizes i of
        Some item \<Rightarrow>
          structSSZ_offsets n (i + 1) fixedSizes input startOffset (offsetIndexCounter + item) offsets
      | None \<Rightarrow>
          if offsetIndexCounter + BytesPerLengthOffset > length input
          then structSSZ_offsets n (i + 1) fixedSizes input startOffset
                 (offsetIndexCounter + BytesPerLengthOffset) offsets
          else
            (case read_offset input startOffset offsetIndexCounter of
               Inl e \<Rightarrow> Inl e
             | Inr off \<Rightarrow>
                 structSSZ_offsets n (i + 1) fixedSizes input startOffset
                   (offsetIndexCounter + BytesPerLengthOffset) (offsets @ [off])))"

text \<open>Third loop: the fields are decoded.\<close>

fun structSSZ_Unmarshal_fields ::
  "(StructField \<times> (error + SSZAble)) list \<Rightarrow> nat \<Rightarrow> (nat \<rightharpoonup> nat) \<Rightarrow> nat list \<Rightarrow> byte list
     \<Rightarrow> rvalue \<Rightarrow> nat \<Rightarrow> nat \<Rightarrow> error + (nat \<times> rvalue)" where
  "structSSZ_Unmarshal_fields [] i fixedSizes offsets input val currentIndex offsetIndex =
     Inr (currentIndex, val)"
| "structSSZ_Unmarshal_fields ((f, fac) # ffs) i fixedSizes offsets input val currentIndex offsetIndex =
     (case determineFieldType f of
        Inl err \<Rightarrow> Inl err
      | Inr fType \<Rightarrow>
          (case Field val i of
             Inl e \<Rightarrow> Inl e
           | Inr fv0 \<Rightarrow>
               (case instantiate_if_Ptr fv0 fType of
                  Inl e \<Rightarrow> Inl e
                | Inr fv \<Rightarrow>
                    (case fac of
                       Inl err \<Rightarrow> Inl err
                     | Inr factory \<Rightarrow>
                         (case fixedSizes i of
                            Some item \<Rightarrow>
                              if item = 0
                              then structSSZ_Unmarshal_fields ffs (i + 1) fixedSizes offsets input
                                     (SetField val i fv) currentIndex offsetIndex
                              else
                                (case slice input currentIndex (currentIndex + item) of
                                   Inl e \<Rightarrow> Inl e
                                 | Inr sub \<Rightarrow>
                                     (case Unmarshal factory fv fType sub 0 of
                                        Inl err \<Rightarrow> Inl err
                                      | Inr (n, fv') \<Rightarrow>
                                          structSSZ_Unmarshal_fields ffs (i + 1) fixedSizes offsets input
                                            (SetField val i fv') (currentIndex + item) offsetIndex))
                          | None \<Rightarrow>
                              if \<not> offsetIndex < length offsets
                              then Inl (Panic ''index out of range'')
                              else if offsets ! offsetIndex = length input
                              then structSSZ_Unmarshal_fields ffs (i + 1) fixedSizes offsets input
                                     (SetField val i fv) (currentIndex + BytesPerLengthOffset) offsetIndex
                              else if \<not> offsetIndex + 1 < length offsets
                              then Inl (Panic ''index out of range'')
                              else if offsets ! (offsetIndex + 1) > length input
                              then Inl (Error ''slice bounds out of range'')
                              else
                                (case slice input (offsets ! offsetIndex) (offsets ! (offsetIndex + 1)) of
                                   Inl e \<Rightarrow> Inl e
                                 | Inr sub \<Rightarrow>
                                     (case Unmarshal factory fv fType sub 0 of
                                        Inl err \<Rightarrow> Inl err
                                      | Inr (n, fv') \<Rightarrow>
                                          structSSZ_Unmarshal_fields ffs (i + 1) fixedSizes offsets input
                                            (SetField val i fv') (currentIndex + BytesPerLengthOffset)
                                            (offsetIndex + 1))))))))"

fun structSSZ_Unmarshal :: "(error + SSZAble) list \<Rightarrow> unmarshal_fn" where
  "structSSZ_Unmarshal facs val (TPtr t) input startOffset =
     (case val of
        VPtr None \<Rightarrow> Inr (startOffset, VPtr None)
      | VPtr (Some e) \<Rightarrow>
          (case structSSZ_Unmarshal facs e t input startOffset of
             Inl err \<Rightarrow> Inl err
           | Inr (n, e') \<Rightarrow> Inr (n, VPtr (Some e')))
      | _ \<Rightarrow> Inl (Panic ''reflect: call of Value.IsNil on a non-pointer''))"
| "structSSZ_Unmarshal facs val (TStruct fs) input startOffset =
     (case structSSZ_fixedSizes fs 0 val Map.empty of
        Inl err \<Rightarrow> Inl err
      | Inr (val', fixedSizes) \<Rightarrow>
          (case structSSZ_offsets (length fs) 0 fixedSizes input startOffset startOffset [] of
             Inl e \<Rightarrow> Inl e
           | Inr offsets \<Rightarrow>
               structSSZ_Unmarshal_fields (zip fs facs) 0 fixedSizes (offsets @ [length input]) input
                 val' startOffset 0))"
| "structSSZ_Unmarshal facs val _ input startOffset = Inl (Panic ''reflect: NumField of non-struct type'')"

section \<open>The codec factory and the public functions of ssz.go\<close>

text \<open>
  Modelled from the spec: \<^verbatim>\<open>SSZFactory\<close> (types/factory.go is missing) picks
  the codec of a schema node: the primitive codec for booleans and unsigned
  integers; for a list or a vector the fixed-element or the variable-element
  codec, dispatched on \<open>is_fixed(elem)\<close>; the structure codec for a container;
  the codec of the pointee for a pointer; the string codec for a string (which
  the codec supports although no schema kind names it); every other kind is
  rejected as unsupported, as the tests of ssz_test.go expect for
  \<^verbatim>\<open>complex128\<close>. It depends on the type only; the value argument is dropped.
\<close>

fun SSZFactory :: "rtype \<Rightarrow> error + SSZAble" where
  "SSZFactory TBool = Inr basicSSZ"
| "SSZFactory TUint8 = Inr basicSSZ"
| "SSZFactory TUint16 = Inr basicSSZ"
| "SSZFactory TUint32 = Inr basicSSZ"
| "SSZFactory TUint64 = Inr basicSSZ"
| "SSZFactory TString = Inr stringSSZ"
| "SSZFactory (TSlice t) =
     (if \<not> isVariableSizeType t
      then Inr \<lparr>Marshal = basicSliceSSZ_Marshal (SSZFactory t),
                Unmarshal = basicSliceSSZ_Unmarshal (SSZFactory t)\<rparr>
      else Inr \<lparr>Marshal = compositeSliceSSZ_Marshal (SSZFactory t),
                Unmarshal = compositeSliceSSZ_Unmarshal (SSZFactory t)\<rparr>)"
| "SSZFactory (TArray n t) =
     (if \<not> isVariableSizeType t
      then Inr \<lparr>Marshal = basicArraySSZ_Marshal (SSZFactory t),
                Unmarshal = basicArraySSZ_Unmarshal (SSZFactory t)
                  (case t of TPtr t' \<Rightarrow> SSZFactory t' | _ \<Rightarrow> Inl (Panic ''reflect: Elem of invalid type''))\<rparr>
      else Inr \<lparr>Marshal = compositeArraySSZ_Marshal (SSZFactory t),
                Unmarshal = compositeArraySSZ_Unmarshal (SSZFactory t)\<rparr>)"
| "SSZFactory (TStruct fs) =
     Inr \<lparr>Marshal = structSSZ_Marshal (map (\<lambda>f. SSZFactory (Type f)) fs),
          Unmarshal = structSSZ_Unmarshal (map (\<lambda>f. SSZFactory (Type f)) fs)\<rparr>"
| "SSZFactory (TPtr t) = SSZFactory t"
| "SSZFactory TComplex128 = Inl (Error ''unsupported kind: complex128'')"

text \<open>
  The argument of \<^verbatim>\<open>Marshal\<close> and \<^verbatim>\<open>Unmarshal\<close> is an \<^verbatim>\<open>interface{}\<close>:
  \<open>None\<close> for the untyped nil, else a dynamic type and a value, together with
  what the methods \<^verbatim>\<open>MarshalSSZ\<close> and \<^verbatim>\<open>UnmarshalSSZ\<close> return when the dynamic
  type has them (the type assertions to \<^verbatim>\<open>fssz.Marshaler\<close> and
  \<^verbatim>\<open>fssz.Unmarshaler\<close>).
\<close>

record iface =
  itype :: rtype
  ivalue :: rvalue
  MarshalSSZ :: "(error + byte list) option"
  UnmarshalSSZ :: "(byte list \<Rightarrow> error + rvalue) option"

text \<open>\<^verbatim>\<open>errors.Wrapf(err, ...)\<close> prefixes the message of an error.\<close>

fun Wrapf :: "error \<Rightarrow> string \<Rightarrow> error" where
  "Wrapf (Error msg) prefix = Error (prefix @ '': '' @ msg)"
| "Wrapf (Panic msg) prefix = Panic msg"

text \<open>\<^verbatim>\<open>ssz.Marshal\<close>.\<close>

definition ssz_Marshal :: "iface option \<Rightarrow> error + byte list" where
  "ssz_Marshal val =
     (case val of
        None \<Rightarrow> Inl (Error ''untyped-value nil cannot be marshaled'')
      | Some v \<Rightarrow>
          (case MarshalSSZ v of
             Some result \<Rightarrow> result
           | None \<Rightarrow>
               (case SSZFactory (itype v) of
                  Inl err \<Rightarrow> Inl err
                | Inr factory \<Rightarrow>
                    (case itype v of
                       TPtr t \<Rightarrow>
                         (case ivalue v of
                            VPtr None \<Rightarrow> Inr (replicate (DetermineSize (ivalue v) (itype v)) 0)
                          | VPtr (Some e) \<Rightarrow>
                              (case Marshal factory e t
                                      (replicate (DetermineSize (ivalue v) (itype v)) 0) 0 of
                                 Inl err \<Rightarrow> Inl (Wrapf err ''failed to marshal for type'')
                               | Inr (n, buf) \<Rightarrow> Inr buf)
                          | _ \<Rightarrow> Inl (Panic ''reflect: call of Value.IsNil on a non-pointer''))
                     | _ \<Rightarrow>
                         (case Marshal factory (ivalue v) (itype v)
                                 (replicate (DetermineSize (ivalue v) (itype v)) 0) 0 of
                            Inl err \<Rightarrow> Inl (Wrapf err ''failed to marshal for type'')
                          | Inr (n, buf) \<Rightarrow> Inr buf)))))"

text \<open>
  \<^verbatim>\<open>ssz.Unmarshal\<close> returns an error or nil; on nil the model returns the value
  the destination pointer points to afterwards.
\<close>

definition ssz_Unmarshal :: "byte list \<Rightarrow> iface option \<Rightarrow> error + rvalue" where
  "ssz_Unmarshal input val =
     (case val of
        None \<Rightarrow> Inl (Error ''cannot unmarshal into untyped, nil value'')
      | Some v \<Rightarrow>
          (case UnmarshalSSZ v of
             Some unmarshalSSZ \<Rightarrow> unmarshalSSZ input
           | None \<Rightarrow>
               if length input = 0
               then Inl (Error ''no data to unmarshal from, input is an empty byte slice []byte{}'')
               else
                 (case itype v of
                    TPtr t \<Rightarrow>
                      (case ivalue v of
                         VPtr None \<Rightarrow> Inl (Error ''cannot output to pointer of nil value'')
                       | VPtr (Some e) \<Rightarrow>
                           (case SSZFactory t of
                              Inl err \<Rightarrow> Inl err
                            | Inr factory \<Rightarrow>
                                (case Unmarshal factory e t input 0 of
                                   Inl err \<Rightarrow> Inl (Wrapf err ''could not unmarshal input into type'')
                                 | Inr (n, e') \<Rightarrow>
                                     if length input \<noteq> DetermineSize (VPtr (Some e')) (itype v)
                                     then Inl (Error ''unexpected amount of data'')
                                     else Inr e'))
                       | _ \<Rightarrow> Inl (Panic ''reflect: call of Value.IsNil on a non-pointer''))
                  | _ \<Rightarrow> Inl (Error ''can only unmarshal into a pointer target''))))"

section \<open>decode.go\<close>

text \<open>
  A \<^verbatim>\<open>decoder\<close> is \<^verbatim>\<open>func(input []byte, val reflect.Value, startOffset uint64)
  (uint64, error)\<close>; it returns the destination as it has set it.
\<close>

type_synonym decoder = "byte list \<Rightarrow> rvalue \<Rightarrow> nat \<Rightarrow> error + (nat \<times> rvalue)"

text \<open>\<^verbatim>\<open>fmt.Errorf(prefix + ": %v", err)\<close> and \<^verbatim>\<open>newDecodeError\<close> keep a panic a panic.\<close>

fun decodeBool :: decoder where
  "decodeBool input val startOffset =
     (if \<not> startOffset < length input then Inl (Panic ''index out of range'')
      else if input ! startOffset = 0
      then (case val of VBool old \<Rightarrow> Inr (startOffset + 1, VBool False)
            | _ \<Rightarrow> Inl (Panic ''reflect: call of Value.SetBool on a wrong kind''))
      else if input ! startOffset = 1
      then (case val of VBool old \<Rightarrow> Inr (startOffset + 1, VBool True)
            | _ \<Rightarrow> Inl (Panic ''reflect: call of Value.SetBool on a wrong kind''))
      else Inl (Error ''expect 0 or 1 for decoding bool''))"

fun decodeUint8 :: decoder where
  "decodeUint8 input val startOffset =
     (if \<not> startOffset < length input then Inl (Panic ''index out of range'')
      else (case val of VUint8 old \<Rightarrow> Inr (startOffset + 1, VUint8 (input ! startOffset))
            | _ \<Rightarrow> Inl (Panic ''reflect: call of Value.SetUint on a wrong kind'')))"

fun decodeUint16 :: decoder where
  "decodeUint16 input val startOffset =
     (case slice input startOffset (startOffset + 2) of
        Inl e \<Rightarrow> Inl e
      | Inr buf \<Rightarrow>
          (case Uint16 buf of
             Inl e \<Rightarrow> Inl e
           | Inr w \<Rightarrow>
               (case val of VUint16 old \<Rightarrow> Inr (startOffset + 2, VUint16 w)
                | _ \<Rightarrow> Inl (Panic ''reflect: call of Value.SetUint on a wrong kind''))))"

fun decodeUint32 :: decoder where
  "decodeUint32 input val startOffset =
     (case slice input startOffset (startOffset + 4) of
        Inl e \<Rightarrow> Inl e
      | Inr buf \<Rightarrow>
          (case Uint32 buf of
             Inl e \<Rightarrow> Inl e
           | Inr w \<Rightarrow>
               (case val of VUint32 old \<Rightarrow> Inr (startOffset + 4, VUint32 w)
                | _ \<Rightarrow> Inl (Panic ''reflect: call of Value.SetUint on a wrong kind''))))"

fun decodeUint64 :: decoder where
  "decodeUint64 input val startOffset =
     (case slice input startOffset (startOffset + 8) of
        Inl e \<Rightarrow> Inl e
      | Inr buf \<Rightarrow>
          (case Uint64 buf of
             Inl e \<Rightarrow> Inl e
           | Inr w \<Rightarrow>
               (case val of VUint64 old \<Rightarrow> Inr (startOffset + 8, VUint64 w)
                | _ \<Rightarrow> Inl (Panic ''reflect: call of Value.SetUint on a wrong kind''))))"

definition makeByteSliceDecoder :: "error + decoder" where
  "makeByteSliceDecoder =
     Inr (\<lambda>input val startOffset.
       case slice input startOffset (startOffset + length input) of
         Inl e \<Rightarrow> Inl e
       | Inr bytes \<Rightarrow>
           (case val of VSlice old \<Rightarrow> Inr (startOffset + length input, VSlice (map VUint8 bytes))
            | _ \<Rightarrow> Inl (Panic ''reflect: call of Value.SetBytes on a wrong kind'')))"

text \<open>
  \<^verbatim>\<open>makeBasicSliceDecoder\<close>: \<open>elemSSZUtils\<close> is what
  \<^verbatim>\<open>cachedSSZUtilsNoAcquireLock(typ.Elem())\<close> returns, the decoder that
  \<^verbatim>\<open>makeDecoder\<close> makes for the element type (the cache itself is missing from the
  sources). The loop \<^verbatim>\<open>for i < endOffset\<close>:
\<close>

function makeBasicSliceDecoder_loop ::
  "decoder \<Rightarrow> byte list \<Rightarrow> rvalue list \<Rightarrow> nat \<Rightarrow> nat \<Rightarrow> nat \<Rightarrow> error + (nat \<times> rvalue)" where
  "makeBasicSliceDecoder_loop elem input vs i endOffset index =
     (if i < endOffset
      then
        (if \<not> i < length vs then Inl (Panic ''reflect: slice index out of range'')
         else
           (case elem input (vs ! i) index of
              Inl err \<Rightarrow> Inl (Wrapf err ''failed to decode element of slice'')
            | Inr (index', v) \<Rightarrow>
                makeBasicSliceDecoder_loop elem input (vs[i := v]) (i + 1) endOffset index'))
      else Inr (index, VSlice vs))"
  by pat_completeness auto
termination
  by (relation "measure (\<lambda>(elem, input, vs, i, endOffset, index). endOffset - i)") auto

definition makeBasicSliceDecoder :: "rtype \<Rightarrow> error + decoder \<Rightarrow> error + decoder" where
  "makeBasicSliceDecoder typ elemSSZUtils =
     (case elemSSZUtils of
        Inl err \<Rightarrow> Inl err
      | Inr elem \<Rightarrow>
          Inr (\<lambda>input val startOffset.
            case (val, Elem typ) of
              (VSlice vs, Some et) \<Rightarrow>
                (case elem input (growConcreteSliceType vs et 1 ! 0) startOffset of
                   Inl err \<Rightarrow> Inl (Wrapf err ''failed to decode element of slice'')
                 | Inr (index, v) \<Rightarrow>
                     (let elementSize = (if startOffset \<le> index then index - startOffset
                                         else 2 ^ 64 + index - startOffset)
                      in if elementSize = 0 then Inl (Panic ''integer divide by zero'')
                         else makeBasicSliceDecoder_loop elem input
                                (growConcreteSliceType ((growConcreteSliceType vs et 1)[0 := v]) et
                                   (length input div elementSize))
                                1 (length input div elementSize) index))
            | _ \<Rightarrow> Inl (Panic ''reflect.MakeSlice of non-slice type'')))"

text \<open>
  \<^verbatim>\<open>makeCompositeSliceDecoder\<close>: this older decoder returns errors for an offset
  past the end and for offsets that decrease.
\<close>

function makeCompositeSliceDecoder_loop ::
  "decoder \<Rightarrow> rtype \<Rightarrow> byte list \<Rightarrow> nat \<Rightarrow> nat \<Rightarrow> rvalue list \<Rightarrow> nat \<Rightarrow> nat \<Rightarrow> nat \<Rightarrow> error + (nat \<times> rvalue)" where
  "makeCompositeSliceDecoder_loop elem et input startOffset firstOffset vs i currentIndex currentOffset =
     (if currentIndex < firstOffset
      then
        (if currentOffset > length input then Inl (Error ''offset out of bounds'')
         else
           (case (if currentIndex + BytesPerLengthOffset = firstOffset then Inr (length input)
                  else read_offset input startOffset (currentIndex + BytesPerLengthOffset)) of
              Inl e \<Rightarrow> Inl e
            | Inr nextOffset \<Rightarrow>
                if currentOffset > nextOffset then Inl (Error ''offsets must be increasing'')
                else
                  (case slice input currentOffset nextOffset of
                     Inl e \<Rightarrow> Inl e
                   | Inr sub \<Rightarrow>
                       (case elem sub (growConcreteSliceType vs et (i + 1) ! i) 0 of
                          Inl err \<Rightarrow> Inl (Wrapf err ''failed to decode element of slice'')
                        | Inr (n, v) \<Rightarrow>
                            makeCompositeSliceDecoder_loop elem et input startOffset firstOffset
                              ((growConcreteSliceType vs et (i + 1))[i := v]) (i + 1)
                              (currentIndex + BytesPerLengthOffset) nextOffset))))
      else Inr (currentIndex, VSlice vs))"
  by pat_completeness auto
termination
  by (relation "measure (\<lambda>(elem, et, input, startOffset, firstOffset, vs, i, currentIndex, currentOffset).
        firstOffset - currentIndex)") (auto simp: BytesPerLengthOffset_def)

definition makeCompositeSliceDecoder :: "rtype \<Rightarrow> error + decoder \<Rightarrow> error + decoder" where
  "makeCompositeSliceDecoder typ elemSSZUtils =
     (case elemSSZUtils of
        Inl err \<Rightarrow> Inl err
      | Inr elem \<Rightarrow>
          Inr (\<lambda>input val startOffset.
            case (val, Elem typ) of
              (VSlice vs, Some et) \<Rightarrow>
                (case read_offset input startOffset startOffset of
                   Inl e \<Rightarrow> Inl e
                 | Inr firstOffset \<Rightarrow>
                     makeCompositeSliceDecoder_loop elem et input startOffset firstOffset
                       (growConcreteSliceType vs et 1) 0 startOffset firstOffset)
            | _ \<Rightarrow> Inl (Panic ''reflect.MakeSlice of non-slice type'')))"

function makeBasicArrayDecoder_loop ::
  "decoder \<Rightarrow> byte list \<Rightarrow> rvalue list \<Rightarrow> nat \<Rightarrow> nat \<Rightarrow> error + (nat \<times> rvalue list)" where
  "makeBasicArrayDecoder_loop elem input vs i index =
     (if i < length vs
      then
        (case elem input (vs ! i) index of
           Inl err \<Rightarrow> Inl (Wrapf err ''failed to decode element of array'')
         | Inr (index', v) \<Rightarrow> makeBasicArrayDecoder_loop elem input (vs[i := v]) (i + 1) index')
      else Inr (index, vs))"
  by pat_completeness auto
termination
  by (relation "measure (\<lambda>(elem, input, vs, i, index). length vs - i)") auto

definition makeBasicArrayDecoder :: "rtype \<Rightarrow> error + decoder \<Rightarrow> error + decoder" where
  "makeBasicArrayDecoder typ elemSSZUtils =
     (case elemSSZUtils of
        Inl err \<Rightarrow> Inl err
      | Inr elem \<Rightarrow>
          Inr (\<lambda>input val startOffset.
            case Elems val of
              None \<Rightarrow> Inl (Panic ''reflect: call of Value.Len on a wrong kind'')
            | Some vs \<Rightarrow>
                (case makeBasicArrayDecoder_loop elem input vs 0 startOffset of
                   Inl err \<Rightarrow> Inl err
                 | Inr (index, vs') \<Rightarrow> Inr (index, SetElems val vs'))))"

function makeCompositeArrayDecoder_loop ::
  "decoder \<Rightarrow> byte list \<Rightarrow> nat \<Rightarrow> nat \<Rightarrow> rvalue list \<Rightarrow> nat \<Rightarrow> nat \<Rightarrow> nat \<Rightarrow> error + (nat \<times> rvalue list)" where
  "makeCompositeArrayDecoder_loop elem input startOffset firstOffset vs i currentIndex currentOffset =
     (if currentIndex < firstOffset
      then
        (if currentOffset > length input then Inl (Error ''offset out of bounds'')
         else
           (case (if currentIndex + BytesPerLengthOffset = firstOffset then Inr (length input)
                  else read_offset input startOffset (currentIndex + BytesPerLengthOffset)) of
              Inl e \<Rightarrow> Inl e
            | Inr nextOffset \<Rightarrow>
                if currentOffset > nextOffset then Inl (Error ''offsets must be increasing'')
                else
                  (case slice input currentOffset nextOffset of
                     Inl e \<Rightarrow> Inl e
                   | Inr sub \<Rightarrow>
                       if \<not> i < length vs then Inl (Panic ''reflect: array index out of range'')
                       else
                         (case elem sub (vs ! i) 0 of
                            Inl err \<Rightarrow> Inl (Wrapf err ''failed to decode element of slice'')
                          | Inr (n, v) \<Rightarrow>
                              makeCompositeArrayDecoder_loop elem input startOffset firstOffset
                                (vs[i := v]) (i + 1) (currentIndex + BytesPerLengthOffset) nextOffset))))
      else Inr (currentIndex, vs))"
  by pat_completeness auto
termination
  by (relation "measure (\<lambda>(elem, input, startOffset, firstOffset, vs, i, currentIndex, currentOffset).
        firstOffset - currentIndex)") (auto simp: BytesPerLengthOffset_def)

definition makeCompositeArrayDecoder :: "rtype \<Rightarrow> error + decoder \<Rightarrow> error + decoder" where
  "makeCompositeArrayDecoder typ elemSSZUtils =
     (case elemSSZUtils of
        Inl err \<Rightarrow> Inl err
      | Inr elem \<Rightarrow>
          Inr (\<lambda>input val startOffset.
            case read_offset input startOffset startOffset of
              Inl e \<Rightarrow> Inl e
            | Inr firstOffset \<Rightarrow>
                (case Elems val of
                   None \<Rightarrow>
                     if startOffset < firstOffset
                     then Inl (Panic ''reflect: call of Value.Index on a wrong kind'')
                     else Inr (startOffset, val)
                 | Some vs \<Rightarrow>
                     (case makeCompositeArrayDecoder_loop elem input startOffset firstOffset vs 0
                             startOffset firstOffset of
                        Inl err \<Rightarrow> Inl err
                      | Inr (index, vs') \<Rightarrow> Inr (index, SetElems val vs')))))"

text \<open>
  \<^verbatim>\<open>makeStructDecoder\<close>. First loop: \<open>fixedSizes[i]\<close> is the fixed size of field
  \<open>i\<close>, or 0 when the field is of variable size or of size 0; the type of
  \<^verbatim>\<open>val.Field(i)\<close> is the declared type of the field.
\<close>

fun makeStructDecoder_fixedSizes :: "rvalue \<Rightarrow> StructField list \<Rightarrow> nat \<Rightarrow> error + nat list" where
  "makeStructDecoder_fixedSizes val [] i = Inr []"
| "makeStructDecoder_fixedSizes val (f # fs) i =
     (case Field val i of
        Inl e \<Rightarrow> Inl e
      | Inr fv \<Rightarrow>
          (case makeStructDecoder_fixedSizes val fs (i + 1) of
             Inl e \<Rightarrow> Inl e
           | Inr rest \<Rightarrow>
               Inr ((if \<not> isVariableSizeType (Type f) \<and> determineFixedSize fv (Type f) > 0
                     then determineFixedSize fv (Type f) else 0) # rest)))"

text \<open>
  Second loop, \<^verbatim>\<open>for i, item := range fixedSizes\<close>: for an item that is 0 the
  offset is read from \<^verbatim>\<open>input[i : i+BytesPerLengthOffset]\<close>, a slice of 4 bytes,
  with \<^verbatim>\<open>binary.LittleEndian.Uint64\<close>. (\<^verbatim>\<open>fixedEnd\<close> is computed and never read;
  it is left out.)
\<close>

fun makeStructDecoder_offsets :: "nat list \<Rightarrow> nat \<Rightarrow> byte list \<Rightarrow> nat \<Rightarrow> nat list \<Rightarrow> error + nat list" where
  "makeStructDecoder_offsets [] i input startOffset offsets = Inr offsets"
| "makeStructDecoder_offsets (item # items) i input startOffset offsets =
     (if item > 0 then makeStructDecoder_offsets items (i + 1) input startOffset offsets
      else
        (case slice input i (i + BytesPerLengthOffset) of
           Inl e \<Rightarrow> Inl e
         | Inr offsetVal \<Rightarrow>
             (case Uint64 offsetVal of
                Inl e \<Rightarrow> Inl e
              | Inr w \<Rightarrow>
                  makeStructDecoder_offsets items (i + 1) input startOffset
                    (offsets @ [startOffset + unat w]))))"

text \<open>Third loop: \<open>ffs\<close> pairs the decoder of each field with its entry of \<open>fixedSizes\<close>.\<close>

fun makeStructDecoder_fields ::
  "(decoder \<times> nat) list \<Rightarrow> nat \<Rightarrow> nat list \<Rightarrow> byte list \<Rightarrow> rvalue \<Rightarrow> nat \<Rightarrow> nat \<Rightarrow> error + (nat \<times> rvalue)" where
  "makeStructDecoder_fields [] i offsets input val currentIndex offsetIndex = Inr (0, val)"
| "makeStructDecoder_fields ((dec, fieldSize) # ffs) i offsets input val currentIndex offsetIndex =
     (if fieldSize > 0
      then
        (case slice input currentIndex (currentIndex + fieldSize) of
           Inl e \<Rightarrow> Inl e
         | Inr sub \<Rightarrow>
             (case Field val i of
                Inl e \<Rightarrow> Inl e
              | Inr fv \<Rightarrow>
                  (case dec sub fv 0 of
                     Inl err \<Rightarrow> Inl err
                   | Inr (n, fv') \<Rightarrow>
                       makeStructDecoder_fields ffs (i + 1) offsets input (SetField val i fv')
                         (currentIndex + fieldSize) offsetIndex)))
      else if \<not> offsetIndex + 1 < length offsets then Inl (Panic ''index out of range'')
      else
        (case slice input (offsets ! offsetIndex) (offsets ! (offsetIndex + 1)) of
           Inl e \<Rightarrow> Inl e
         | Inr sub \<Rightarrow>
             (case Field val i of
                Inl e \<Rightarrow> Inl e
              | Inr fv \<Rightarrow>
                  (case dec sub fv 0 of
                     Inl err \<Rightarrow> Inl err
                   | Inr (n, fv') \<Rightarrow>
                       makeStructDecoder_fields ffs (i + 1) offsets input (SetField val i fv')
                         (currentIndex + BytesPerLengthOffset) (offsetIndex + 1)))))"

text \<open>
  \<open>utils\<close> are the outcomes of \<^verbatim>\<open>cachedSSZUtilsNoAcquireLock\<close> for the field
  types, which \<^verbatim>\<open>structFields(typ)\<close> (missing) collects; the first error among
  them is the error of \<^verbatim>\<open>makeStructDecoder\<close>.
\<close>

fun structFields :: "(error + decoder) list \<Rightarrow> error + decoder list" where
  "structFields [] = Inr []"
| "structFields (Inl err # utils) = Inl err"
| "structFields (Inr dec # utils) =
     (case structFields utils of Inl err \<Rightarrow> Inl err | Inr decs \<Rightarrow> Inr (dec # decs))"

definition makeStructDecoder :: "rtype \<Rightarrow> (error + decoder) list \<Rightarrow> error + decoder" where
  "makeStructDecoder typ utils =
     (case structFields utils of
        Inl err \<Rightarrow> Inl err
      | Inr decs \<Rightarrow>
          Inr (\<lambda>input val startOffset.
            case typ of
              TStruct fs \<Rightarrow>
                (case makeStructDecoder_fixedSizes val (take (length decs) fs) 0 of
                   Inl e \<Rightarrow> Inl e
                 | Inr fixedSizes \<Rightarrow>
                     (case makeStructDecoder_offsets fixedSizes 0 input startOffset [] of
                        Inl e \<Rightarrow> Inl e
                      | Inr offsets \<Rightarrow>
                          makeStructDecoder_fields (zip decs fixedSizes) 0 (offsets @ [length input])
                            input val startOffset 0))
            | _ \<Rightarrow> Inl (Panic ''reflect: NumField of non-struct type'')))"

definition makePtrDecoder :: "rtype \<Rightarrow> error + decoder \<Rightarrow> error + decoder" where
  "makePtrDecoder typ elemSSZUtils =
     (case elemSSZUtils of
        Inl err \<Rightarrow> Inl err
      | Inr elem \<Rightarrow>
          Inr (\<lambda>input val startOffset.
            case val of
              VPtr (Some e) \<Rightarrow>
                (case elem input e startOffset of
                   Inl err \<Rightarrow> Inl (Wrapf err ''failed to decode to object pointed by pointer'')
                 | Inr (elemDecodeSize, e') \<Rightarrow> Inr (elemDecodeSize, VPtr (Some e')))
            | _ \<Rightarrow> Inl (Panic ''reflect: call on zero Value'')))"

text \<open>
  Modelled from the spec: \<^verbatim>\<open>isBasicType\<close> and \<^verbatim>\<open>isBasicTypeArray\<close> (missing): a
  basic type is a bool or an unsigned integer, a basic-type array an array of
  such elements.
\<close>

fun isBasicType :: "rtype \<Rightarrow> bool" where
  "isBasicType TBool = True"
| "isBasicType TUint8 = True"
| "isBasicType TUint16 = True"
| "isBasicType TUint32 = True"
| "isBasicType TUint64 = True"
| "isBasicType _ = False"

fun isBasicTypeArray :: "rtype \<Rightarrow> bool" where
  "isBasicTypeArray (TArray n t) = isBasicType t"
| "isBasicTypeArray _ = False"

fun makeDecoder :: "rtype \<Rightarrow> error + decoder" where
  "makeDecoder TBool = Inr decodeBool"
| "makeDecoder TUint8 = Inr decodeUint8"
| "makeDecoder TUint16 = Inr decodeUint16"
| "makeDecoder TUint32 = Inr decodeUint32"
| "makeDecoder TUint64 = Inr decodeUint64"
| "makeDecoder (TSlice t) =
     (if t = TUint8 then makeByteSliceDecoder
      else if isBasicType t then makeBasicSliceDecoder (TSlice t) (makeDecoder t)
      else if isBasicTypeArray t then makeBasicSliceDecoder (TSlice t) (makeDecoder t)
      else makeCompositeSliceDecoder (TSlice t) (makeDecoder t))"
| "makeDecoder (TArray n t) =
     (if isBasicType t then makeBasicArrayDecoder (TArray n t) (makeDecoder t)
      else if isBasicTypeArray t then makeBasicArrayDecoder (TArray n t) (makeDecoder t)
      else makeCompositeArrayDecoder (TArray n t) (makeDecoder t))"
| "makeDecoder (TStruct fs) = makeStructDecoder (TStruct fs) (map (\<lambda>f. makeDecoder (Type f)) fs)"
| "makeDecoder (TPtr t) = makePtrDecoder (TPtr t) (makeDecoder t)"
| "makeDecoder _ = Inl (Error ''type is not deserializable'')"

text \<open>
  \<^verbatim>\<open>Decode\<close>; \<^verbatim>\<open>cachedSSZUtils(typ)\<close> hands out the decoder \<^verbatim>\<open>makeDecoder(typ)\<close>
  makes. On nil the model returns the value the destination points to afterwards.
\<close>

definition Decode :: "byte list \<Rightarrow> iface option \<Rightarrow> error + rvalue" where
  "Decode input val =
     (case val of
        None \<Rightarrow> Inl (Error ''decode error: cannot decode into nil'')
      | Some v \<Rightarrow>
          (case itype v of
             TPtr t \<Rightarrow>
               (case ivalue v of
                  VPtr None \<Rightarrow> Inl (Error ''decode error: cannot output to pointer of nil'')
                | VPtr (Some e) \<Rightarrow>
                    (case makeDecoder t of
                       Inl err \<Rightarrow> Inl (Wrapf err ''decode error'')
                     | Inr dec \<Rightarrow>
                         (case dec input e 0 of
                            Inl err \<Rightarrow> Inl (Wrapf err ''decode error'')
                          | Inr (n, e') \<Rightarrow> Inr e'))
                | _ \<Rightarrow> Inl (Panic ''reflect: call of Value.IsNil on a non-pointer''))
           | _ \<Rightarrow> Inl (Error ''decode error: can only decode into pointer target'')))"

section \<open>Notions used to state the properties\<close>

text \<open>The fields of a structure with every \<^verbatim>\<open>ssz-max\<close> tag removed.\<close>

definition without_limits :: "StructField list \<Rightarrow> StructField list" where
  "without_limits fs = map (\<lambda>f. StructField (Name f) (Type f) None) fs"

text \<open>
  A codec keeps to its frame when a successful \<^verbatim>\<open>Marshal\<close> at \<open>index\<close> returns
  an index that is not smaller, keeps the length of the buffer and leaves the
  bytes below \<open>index\<close> as they were.
\<close>

definition frame :: "SSZAble \<Rightarrow> bool" where
  "frame factory \<longleftrightarrow>
     (\<forall>val typ buf index index' buf'.
        Marshal factory val typ buf index = Inr (index', buf') \<longrightarrow>
        index \<le> index' \<and> length buf' = length buf \<and> take index buf' = take index buf)"

text \<open>
  The \<open>n\<close> offset values that stand in the first \<open>n * 4\<close> bytes of a
  composite serialized at \<open>startOffset\<close> of \<open>buf\<close>, each read as 4 bytes,
  little endian.
\<close>

definition offsets_written :: "byte list \<Rightarrow> nat \<Rightarrow> nat \<Rightarrow> nat list" where
  "offsets_written buf startOffset n =
     map (\<lambda>k. le_nat (take 4 (drop (startOffset + 4 * k) buf))) [0..<n]"

text \<open>
  \<open>offset_table cur lens\<close> are the offsets, 4 bytes each, of consecutive
  elements of the lengths \<open>lens\<close>, the first of them at \<open>cur\<close>.
\<close>

fun offset_table :: "nat \<Rightarrow> nat list \<Rightarrow> byte list" where
  "offset_table cur [] = []"
| "offset_table cur (n # ns) = PutUint32 (of_nat cur) @ offset_table (cur + n) ns"

text \<open>
  \<open>splice buf lo src\<close> is \<open>buf\<close> with \<open>src\<close> written at \<open>lo\<close>. A codec
  \<open>writes\<close> the bytes \<open>bs\<close> for a value when \<^verbatim>\<open>Marshal\<close> at any index of a
  buffer with room for them puts them there, changes nothing else and returns the
  index behind them.
\<close>

definition splice :: "byte list \<Rightarrow> nat \<Rightarrow> byte list \<Rightarrow> byte list" where
  "splice buf lo src = take lo buf @ src @ drop (lo + length src) buf"

definition writes :: "SSZAble \<Rightarrow> rtype \<Rightarrow> rvalue \<Rightarrow> byte list \<Rightarrow> bool" where
  "writes factory t v bs \<longleftrightarrow>
     (\<forall>buf index. index + length bs \<le> length buf \<longrightarrow>
        Marshal factory v t buf index = Inr (index + length bs, splice buf index bs))"

text \<open>
  \<open>decode_elements dec zs index\<close> decodes into the destinations \<open>zs\<close> one
  after the other, the first at \<open>index\<close> and each next one where the previous
  one ended, and stops at the first error.
\<close>

fun decode_elements ::
  "(rvalue \<Rightarrow> nat \<Rightarrow> error + (nat \<times> rvalue)) \<Rightarrow> rvalue list \<Rightarrow> nat \<Rightarrow> error + (nat \<times> rvalue list)" where
  "decode_elements dec [] index = Inr (index, [])"
| "decode_elements dec (z # zs) index =
     (case dec z index of
        Inl err \<Rightarrow> Inl err
      | Inr (index', v) \<Rightarrow>
          (case decode_elements dec zs index' of
             Inl err \<Rightarrow> Inl err
           | Inr (index'', vs) \<Rightarrow> Inr (index'', v # vs)))"

section \<open>Properties\<close>

lemma char_of_byte_of_char: "char_of_byte (byte_of_char c) = c"
proof -
  have "(of_char c :: nat) < 256"
    by simp
  then have "unat (of_nat (of_char c) :: byte) = of_char c"
    by (simp add: unat_of_nat)
  then show ?thesis
    by (simp add: byte_of_char_def char_of_byte_def)
qed

lemma stringSSZ_Marshal_loop_writes:
  "pos + length s \<le> length buf \<Longrightarrow>
   stringSSZ_Marshal_loop s buf pos =
     Inr (take pos buf @ map byte_of_char s @ drop (pos + length s) buf)"
proof (induction s arbitrary: buf pos)
  case Nil
  then show ?case by simp
next
  case (Cons c cs)
  from Cons.prems have lt: "pos < length buf" by simp
  from Cons.prems have "Suc pos + length cs \<le> length (buf[pos := byte_of_char c])" by simp
  from Cons.IH [OF this] lt show ?case
    by (simp add: take_Suc_conv_app_nth upd_conv_take_nth_drop add.commute)
qed

text \<open>
  C10. The string codec: marshaling a string \<open>s\<close> at \<open>startOffset\<close> into a
  buffer with room for it writes exactly the \<open>length s\<close> bytes of \<open>s\<close>, in
  order, at \<open>startOffset\<close>, leaves the rest of the buffer as it was and returns
  \<open>startOffset + length s\<close>; unmarshaling the bytes written restores \<open>s\<close>.
\<close>

theorem stringSSZ_round_trip:
  assumes "startOffset + length s \<le> length buf"
  shows "\<exists>buf'. stringSSZ_Marshal (VString s) typ buf startOffset = Inr (startOffset + length s, buf')
           \<and> length buf' = length buf
           \<and> take startOffset buf' = take startOffset buf
           \<and> drop (startOffset + length s) buf' = drop (startOffset + length s) buf
           \<and> take (length s) (drop startOffset buf') = map byte_of_char s
           \<and> stringSSZ_Unmarshal (VString old) typ (take (length s) (drop startOffset buf')) 0
               = Inr (length s, VString s)"
proof -
  let ?buf' = "take startOffset buf @ map byte_of_char s @ drop (startOffset + length s) buf"
  have m: "stringSSZ_Marshal (VString s) typ buf startOffset = Inr (startOffset + length s, ?buf')"
    using assms by (simp add: stringSSZ_Marshal_loop_writes)
  have l: "length (take startOffset buf) = startOffset"
    using assms by simp
  have w: "take (length s) (drop startOffset ?buf') = map byte_of_char s"
    using l by simp
  have d: "drop (startOffset + length s) ?buf' = drop (startOffset + length s) buf"
    using l by (simp add: drop_append)
  have u: "stringSSZ_Unmarshal (VString old) typ (map byte_of_char s) 0 = Inr (length s, VString s)"
    by (simp add: comp_def char_of_byte_of_char)
  show ?thesis
    using assms m l w d u by (intro exI [of _ ?buf']) simp
qed

theorem stringSSZ_round_trip_witness:
  "stringSSZ_Marshal (VString ''ssz'') TString [0, 0, 0, 0, 0] 1 = Inr (4, [0, 115, 115, 122, 0])
   \<and> stringSSZ_Unmarshal (VString []) TString [115, 115, 122] 0 = Inr (3, VString ''ssz'')"
  using stringSSZ_round_trip [of 1 "''ssz''" "[0, 0, 0, 0, 0]" TString "[]"]
  by (simp add: byte_of_char_def char_of_byte_def)

declare makeBasicSliceDecoder_loop.simps [simp del]
declare basicSliceSSZ_Unmarshal_loop.simps [simp del]

subsection \<open>Fixed-element lists: the element count\<close>

lemma drop_take_window: "drop i (take (i + n) xs) = take n (drop i xs)"
  by (simp add: drop_take)

text \<open>
  C2 as stated fails: five bytes are not a multiple of the four bytes of a
  \<^verbatim>\<open>uint32\<close>, yet \<^verbatim>\<open>Decode\<close> returns nil with a one-element list, and
  \<^verbatim>\<open>basicSliceSSZ.Unmarshal\<close> returns index 4 and no error.
\<close>

theorem misaligned_input_is_accepted:
  "length [1, 0, 0, 0, 9 :: byte] mod 4 \<noteq> 0
   \<and> Decode [1, 0, 0, 0, 9]
       (Some \<lparr>itype = TPtr (TSlice TUint32), ivalue = VPtr (Some (VSlice [])),
              MarshalSSZ = None, UnmarshalSSZ = None\<rparr>)
     = Inr (VSlice [VUint32 1])
   \<and> basicSliceSSZ_Unmarshal (SSZFactory TUint32) (VSlice []) (TSlice TUint32) [1, 0, 0, 0, 9] 0
     = Inr (4, VSlice [VUint32 1])"
  by (simp add: Decode_def makeBasicSliceDecoder_def slice_def Uint32_def growConcreteSliceType_def
      makeBasicSliceDecoder_loop.simps basicSliceSSZ_Unmarshal_def basicSSZ_def read_bytes_def
      basicSliceSSZ_Unmarshal_loop.simps)


subsection \<open>Decreasing offsets in a list of variable-size elements\<close>

text \<open>
  C3. The offset table \<open>8, 4\<close> decreases. \<^verbatim>\<open>compositeSliceSSZ.Unmarshal\<close> leaves
  its loop through \<^verbatim>\<open>break\<close> and returns index 0 and no error, with a
  destination of one empty element: it succeeds with a truncated result. The
  decoder of decode.go rejects the same input.
\<close>

theorem compositeSliceSSZ_Unmarshal_decreasing_offsets:
  "compositeSliceSSZ_Unmarshal (SSZFactory (TSlice TUint8)) (VSlice []) (TSlice (TSlice TUint8))
     [8, 0, 0, 0, 4, 0, 0, 0, 1] 0 = Inr (0, VSlice [VSlice []])
   \<and> Decode [8, 0, 0, 0, 4, 0, 0, 0, 1]
       (Some \<lparr>itype = TPtr (TSlice (TSlice TUint8)), ivalue = VPtr (Some (VSlice [])),
              MarshalSSZ = None, UnmarshalSSZ = None\<rparr>)
     = Inl (Error ''decode error: offsets must be increasing'')"
  by (simp add: compositeSliceSSZ_Unmarshal_def read_offset_def slice_def Uint32_def
      BytesPerLengthOffset_def growConcreteSliceType_def Decode_def makeCompositeSliceDecoder_def
      makeByteSliceDecoder_def)

subsection \<open>The width of the offsets a structure decoder reads\<close>

text \<open>
  C4. For a structure with one field of variable size, the decoder of
  \<^verbatim>\<open>makeStructDecoder\<close> slices 4 bytes and reads them with
  \<^verbatim>\<open>binary.LittleEndian.Uint64\<close>, which needs 8: it panics. On the same input
  \<^verbatim>\<open>structSSZ.Unmarshal\<close>, which reads with \<^verbatim>\<open>Uint32\<close>, decodes the field.
\<close>

theorem makeStructDecoder_reads_offset_as_uint64:
  "Decode [4, 0, 0, 0, 9]
     (Some \<lparr>itype = TPtr (TStruct [StructField ''Foo'' (TSlice TUint8) None]),
            ivalue = VPtr (Some (VStruct [VSlice []])), MarshalSSZ = None, UnmarshalSSZ = None\<rparr>)
     = Inl (Panic ''index out of range'')
   \<and> ssz_Unmarshal [4, 0, 0, 0, 9]
       (Some \<lparr>itype = TPtr (TStruct [StructField ''Foo'' (TSlice TUint8) None]),
              ivalue = VPtr (Some (VStruct [VSlice []])), MarshalSSZ = None, UnmarshalSSZ = None\<rparr>)
     = Inr (VStruct [VSlice [VUint8 9]])"
  by (simp add: Decode_def makeStructDecoder_def makeByteSliceDecoder_def slice_def Uint64_def
      BytesPerLengthOffset_def ssz_Unmarshal_def determineFieldType_def read_offset_def Uint32_def
      basicSliceSSZ_Unmarshal_def growConcreteSliceType_def basicSSZ_def read_bytes_def
      basicSliceSSZ_Unmarshal_loop.simps)

subsection \<open>Marshal of a typed nil pointer\<close>

text \<open>
  C9, as amended. For a typed nil pointer whose type has no \<^verbatim>\<open>MarshalSSZ\<close>
  method and is one \<^verbatim>\<open>SSZFactory\<close> accepts, \<^verbatim>\<open>Marshal\<close> returns a buffer of
  zero bytes whose length is the size computed for the zero value of the pointee;
  the codec \<open>factory\<close> has no part in the result.
\<close>

theorem Marshal_typed_nil_pointer:
  assumes "MarshalSSZ v = None"
    and "itype v = TPtr t"
    and "ivalue v = VPtr None"
    and "SSZFactory (TPtr t) = Inr factory"
  shows "ssz_Marshal (Some v) = Inr (replicate (DetermineSize (Zero t) t) 0)"
  using assms by (simp add: ssz_Marshal_def)

theorem Marshal_typed_nil_pointer_witness:
  "ssz_Marshal (Some \<lparr>itype = TPtr (TStruct [StructField ''Epoch'' TUint64 None]), ivalue = VPtr None,
                        MarshalSSZ = None, UnmarshalSSZ = None\<rparr>)
     = Inr [0, 0, 0, 0, 0, 0, 0, 0]"
  using Marshal_typed_nil_pointer
    [of "\<lparr>itype = TPtr (TStruct [StructField ''Epoch'' TUint64 None]), ivalue = VPtr None,
          MarshalSSZ = None, UnmarshalSSZ = None\<rparr>" "TStruct [StructField ''Epoch'' TUint64 None]"]
  by (simp add: eval_nat_numeral)

text \<open>
  C9 as stated fails for two kinds of typed nil pointer: one whose type has the
  method \<^verbatim>\<open>MarshalSSZ\<close>, to which \<^verbatim>\<open>Marshal\<close> delegates, and one whose
  type \<^verbatim>\<open>SSZFactory\<close> rejects, whose error \<^verbatim>\<open>Marshal\<close> returns before it looks
  at the pointer.
\<close>

theorem Marshal_typed_nil_pointer_can_fail:
  "ssz_Marshal (Some \<lparr>itype = TPtr (TStruct []), ivalue = VPtr None,
                        MarshalSSZ = Some (Inl (Error ''MarshalSSZ of a nil receiver'')),
                        UnmarshalSSZ = None\<rparr>)
     = Inl (Error ''MarshalSSZ of a nil receiver'')
   \<and> ssz_Marshal (Some \<lparr>itype = TPtr TComplex128, ivalue = VPtr None,
                          MarshalSSZ = None, UnmarshalSSZ = None\<rparr>)
     = Inl (Error ''unsupported kind: complex128'')"
  by (simp add: ssz_Marshal_def)

subsection \<open>Declared limits and decoding\<close>

lemma without_limits_simps [simp]:
  "without_limits [] = []"
  "without_limits (f # fs) = StructField (Name f) (Type f) None # without_limits fs"
  "length (without_limits fs) = length fs"
  by (simp_all add: without_limits_def)

lemma map_Type_without_limits [simp]:
  "map (\<lambda>f. g (Type f)) (without_limits fs) = map (\<lambda>f. g (Type f)) fs"
  by (simp add: without_limits_def comp_def)

lemma list_ex_without_limits [simp]:
  "list_ex (\<lambda>f. P (Type f)) (without_limits fs) = list_ex (\<lambda>f. P (Type f)) fs"
  by (induction fs) simp_all

lemma structSSZ_fixedSizes_without_limits:
  "structSSZ_fixedSizes (without_limits fs) i val m = structSSZ_fixedSizes fs i val m"
  by (induction fs arbitrary: i val m) (simp_all add: determineFieldType_def cong: sum.case_cong)

lemma structSSZ_Unmarshal_fields_without_limits:
  "structSSZ_Unmarshal_fields (zip (without_limits fs) facs) i m offsets input val currentIndex offsetIndex
     = structSSZ_Unmarshal_fields (zip fs facs) i m offsets input val currentIndex offsetIndex"
proof (induction fs arbitrary: facs i val currentIndex offsetIndex)
  case Nil
  then show ?case by simp
next
  case (Cons f fs)
  then show ?case
    by (cases facs) (simp_all add: determineFieldType_def cong: sum.case_cong option.case_cong if_cong)
qed

lemma structSSZ_Unmarshal_without_limits:
  "structSSZ_Unmarshal facs val (TStruct (without_limits fs)) input startOffset
     = structSSZ_Unmarshal facs val (TStruct fs) input startOffset"
  by (simp add: structSSZ_fixedSizes_without_limits structSSZ_Unmarshal_fields_without_limits
      cong: sum.case_cong prod.case_cong)

lemma sum_zip_without_limits:
  "map (\<lambda>(v, f). g v (Type f)) (zip vs (without_limits fs)) = map (\<lambda>(v, f). g v (Type f)) (zip vs fs)"
proof (induction fs arbitrary: vs)
  case Nil
  then show ?case by simp
next
  case (Cons f fs)
  then show ?case by (cases vs) simp_all
qed

lemma determineFixedSize_without_limits:
  "determineFixedSize val (TStruct (without_limits fs)) = determineFixedSize val (TStruct fs)"
  by (simp add: without_limits_def comp_def)

lemma DetermineSize_without_limits:
  "DetermineSize val (TStruct (without_limits fs)) = DetermineSize val (TStruct fs)"
proof -
  have "DetermineSize val (TStruct (without_limits fs)) =
      (case val of
         VStruct vs \<Rightarrow>
           if isVariableSizeType (TStruct fs)
           then sum_list (map (\<lambda>(v, f).
                  if isVariableSizeType (Type f)
                  then BytesPerLengthOffset + DetermineSize v (Type f)
                  else determineFixedSize v (Type f)) (zip vs fs))
           else determineFixedSize val (TStruct fs)
       | _ \<Rightarrow> determineFixedSize val (TStruct fs))"
    using sum_zip_without_limits
      [of "\<lambda>v t. if isVariableSizeType t then BytesPerLengthOffset + DetermineSize v t
                  else determineFixedSize v t" _ fs]
    by (subst DetermineSize.simps)
       (simp add: determineFixedSize_without_limits del: DetermineSize.simps determineFixedSize.simps
          split: rvalue.splits)
  also have "\<dots> = DetermineSize val (TStruct fs)"
    by (subst (2) DetermineSize.simps) simp
  finally show ?thesis .
qed

lemma Zero_without_limits:
  "Zero (TStruct (without_limits fs)) = Zero (TStruct fs)"
  by (simp add: without_limits_def comp_def)

lemma DetermineSize_pointer_without_limits:
  "DetermineSize val (TPtr (TStruct (without_limits fs))) = DetermineSize val (TPtr (TStruct fs))"
  by (subst (1 2) DetermineSize.simps)
     (simp add: DetermineSize_without_limits Zero_without_limits del: DetermineSize.simps Zero.simps
        split: rvalue.splits option.splits)

text \<open>
  C6, as amended. Decoding never consults a declared limit: \<^verbatim>\<open>Unmarshal\<close> into a
  structure gives the same result, error or value, as into the same structure
  with all \<^verbatim>\<open>ssz-max\<close> tags of its fields removed.
\<close>

theorem Unmarshal_ignores_declared_limit:
  "ssz_Unmarshal input (Some \<lparr>itype = TPtr (TStruct fs), ivalue = val, MarshalSSZ = m, UnmarshalSSZ = u\<rparr>)
     = ssz_Unmarshal input
         (Some \<lparr>itype = TPtr (TStruct (without_limits fs)), ivalue = val, MarshalSSZ = m, UnmarshalSSZ = u\<rparr>)"
  by (simp add: ssz_Unmarshal_def structSSZ_Unmarshal_without_limits DetermineSize_pointer_without_limits
      del: DetermineSize.simps structSSZ_Unmarshal.simps
      split: option.splits rvalue.splits sum.splits)

text \<open>
  C6 as stated fails: the field declares \<^verbatim>\<open>ssz-max:"1"\<close>, which
  \<^verbatim>\<open>determineFieldCapacity\<close> reads as 1, the input holds two elements, and
  \<^verbatim>\<open>Unmarshal\<close> returns nil with both decoded.
\<close>

theorem limit_exceeded_is_accepted:
  "determineFieldCapacity (StructField ''Items'' (TSlice (TSlice TUint8)) (Some ''1'')) = 1
   \<and> ssz_Unmarshal [4, 0, 0, 0, 8, 0, 0, 0, 9, 0, 0, 0, 1, 2]
       (Some \<lparr>itype = TPtr (TStruct [StructField ''Items'' (TSlice (TSlice TUint8)) (Some ''1'')]),
              ivalue = VPtr (Some (VStruct [VSlice []])), MarshalSSZ = None, UnmarshalSSZ = None\<rparr>)
     = Inr (VStruct [VSlice [VSlice [VUint8 1], VSlice [VUint8 2]]])"
  by (simp add: determineFieldCapacity_def ParseUint_def digit_value_def
      ssz_Unmarshal_def compositeSliceSSZ_Unmarshal_def read_offset_def slice_def Uint32_def
      BytesPerLengthOffset_def growConcreteSliceType_def basicSliceSSZ_Unmarshal_def basicSSZ_def
      read_bytes_def basicSliceSSZ_Unmarshal_loop.simps determineFieldType_def)

subsection \<open>A nil pointer field is marshaled as the zero value\<close>

lemma determineFixedSize_ignores_value:
  "determineFixedSize v t = determineFixedSize v' t"
  by (cases t) simp_all

lemma Marshal_nil_pointer_as_zero:
  "SSZFactory t = Inr factory \<Longrightarrow>
   Marshal factory (VPtr None) (TPtr t0) buf index
     = Marshal factory (VPtr (Some (Zero t0))) (TPtr t0) buf index"
proof (induction t arbitrary: factory rule: SSZFactory.induct)
  case (7 t)
  then show ?case
    by (auto simp: basicSliceSSZ_Marshal_def compositeSliceSSZ_Marshal_def split: if_splits)
next
  case (8 n t)
  then show ?case
    by (auto simp: basicArraySSZ_Marshal_def compositeArraySSZ_Marshal_def split: if_splits)
qed (auto simp: basicSSZ_def stringSSZ_def)

lemma Field_update:
  "Field (VStruct (vs[i := a])) j =
     (if j < length vs then Inr (if j = i then a else vs ! j)
      else Inl (Panic ''reflect: Field index out of range''))"
  by simp

lemma structSSZ_fixedLength_update:
  "structSSZ_fixedLength (VStruct (vs[i := a])) fs j acc
     = structSSZ_fixedLength (VStruct (vs[i := b])) fs j acc"
proof (induction fs arbitrary: j acc)
  case Nil
  then show ?case by simp
next
  case (Cons f fs)
  have "determineFixedSize ((vs[i := a]) ! j) (Type f) = determineFixedSize ((vs[i := b]) ! j) (Type f)"
    by (rule determineFixedSize_ignores_value)
  with Cons show ?case
    by (simp add: determineFieldType_def)
qed

lemma structSSZ_Marshal_fields_update:
  assumes "j \<le> i \<Longrightarrow> i - j < length ffs \<Longrightarrow>
             Type (fst (ffs ! (i - j))) = TPtr t \<and> snd (ffs ! (i - j)) = SSZFactory (TPtr t)"
  shows "structSSZ_Marshal_fields (VStruct (vs[i := VPtr None])) ffs j buf startOffset fixedIndex cur
     = structSSZ_Marshal_fields (VStruct (vs[i := VPtr (Some (Zero t))])) ffs j buf startOffset fixedIndex cur"
  using assms
proof (induction ffs arbitrary: j buf fixedIndex cur)
  case Nil
  then show ?case by simp
next
  case (Cons p ffs)
  obtain f fac where p: "p = (f, fac)" by (cases p)
  have rest: "\<And>buf fixedIndex cur.
      structSSZ_Marshal_fields (VStruct (vs[i := VPtr None])) ffs (j + 1) buf startOffset fixedIndex cur
      = structSSZ_Marshal_fields (VStruct (vs[i := VPtr (Some (Zero t))])) ffs (j + 1) buf startOffset fixedIndex cur"
  proof (rule Cons.IH)
    assume "j + 1 \<le> i" and "i - (j + 1) < length ffs"
    then have "j \<le> i" and "i - j < length (p # ffs)" and "(p # ffs) ! (i - j) = ffs ! (i - (j + 1))"
      by (auto simp: nth_Cons' Suc_diff_Suc)
    with Cons.prems show "Type (fst (ffs ! (i - (j + 1)))) = TPtr t \<and> snd (ffs ! (i - (j + 1))) = SSZFactory (TPtr t)"
      by metis
  qed
  show ?case
  proof (cases "j = i")
    case True
    with Cons.prems p have ft: "Type f = TPtr t" and fc: "fac = SSZFactory (TPtr t)"
      by auto
    have same: "\<And>factory buf index. fac = Inr factory \<Longrightarrow>
        Marshal factory (VPtr None) (TPtr t) buf index
        = Marshal factory (VPtr (Some (Zero t))) (TPtr t) buf index"
      using fc Marshal_nil_pointer_as_zero [of "TPtr t"] by simp
    show ?thesis
      using True p ft rest same
      by (simp add: determineFieldType_def split: sum.splits cong: sum.case_cong)
  next
    case False
    then show ?thesis
      using p rest
      by (simp add: determineFieldType_def cong: sum.case_cong if_cong)
  qed
qed

lemma structSSZ_Marshal_update:
  assumes "i < length fs" and "Type (fs ! i) = TPtr t"
  shows "structSSZ_Marshal (map (\<lambda>f. SSZFactory (Type f)) fs) (VStruct (vs[i := VPtr None])) (TStruct fs) buf startOffset
     = structSSZ_Marshal (map (\<lambda>f. SSZFactory (Type f)) fs) (VStruct (vs[i := VPtr (Some (Zero t))])) (TStruct fs) buf startOffset"
proof -
  have "structSSZ_fixedLength (VStruct (vs[i := VPtr None])) fs 0 0
      = structSSZ_fixedLength (VStruct (vs[i := VPtr (Some (Zero t))])) fs 0 0"
    by (rule structSSZ_fixedLength_update)
  moreover have "\<And>cur. structSSZ_Marshal_fields (VStruct (vs[i := VPtr None]))
        (zip fs (map (\<lambda>f. SSZFactory (Type f)) fs)) 0 buf startOffset startOffset cur
      = structSSZ_Marshal_fields (VStruct (vs[i := VPtr (Some (Zero t))]))
        (zip fs (map (\<lambda>f. SSZFactory (Type f)) fs)) 0 buf startOffset startOffset cur"
    using assms by (intro structSSZ_Marshal_fields_update) simp
  ultimately show ?thesis
    by (simp cong: sum.case_cong)
qed

lemma map_zip_update:
  assumes "i < length fs \<Longrightarrow> g (a, fs ! i) = g (b, fs ! i)"
  shows "map g (zip (vs[i := a]) fs) = map g (zip (vs[i := b]) fs)"
proof (rule nth_equalityI)
  show "length (map g (zip (vs[i := a]) fs)) = length (map g (zip (vs[i := b]) fs))"
    by simp
next
  fix k
  assume "k < length (map g (zip (vs[i := a]) fs))"
  then have k: "k < length vs" "k < length fs"
    by simp_all
  show "map g (zip (vs[i := a]) fs) ! k = map g (zip (vs[i := b]) fs) ! k"
    using k assms by (cases "k = i") simp_all
qed

lemma DetermineSize_nil_pointer:
  "DetermineSize (VPtr None) (TPtr t) = DetermineSize (VPtr (Some (Zero t))) (TPtr t)"
  by (subst (1 2) DetermineSize.simps) simp

lemma DetermineSize_update:
  assumes "Type (fs ! i) = TPtr t"
  shows "DetermineSize (VStruct (vs[i := VPtr None])) (TStruct fs)
     = DetermineSize (VStruct (vs[i := VPtr (Some (Zero t))])) (TStruct fs)"
proof -
  let ?g = "\<lambda>(v, f). if isVariableSizeType (Type f)
                      then BytesPerLengthOffset + DetermineSize v (Type f)
                      else determineFixedSize v (Type f)"
  have "?g (VPtr None, fs ! i) = ?g (VPtr (Some (Zero t)), fs ! i)"
    using assms DetermineSize_nil_pointer [of t]
      determineFixedSize_ignores_value [of "VPtr None" "TPtr t" "VPtr (Some (Zero t))"]
    by (simp del: DetermineSize.simps determineFixedSize.simps)
  then have "map ?g (zip (vs[i := VPtr None]) fs) = map ?g (zip (vs[i := VPtr (Some (Zero t))]) fs)"
    by (intro map_zip_update)
  moreover have "determineFixedSize (VStruct (vs[i := VPtr None])) (TStruct fs)
      = determineFixedSize (VStruct (vs[i := VPtr (Some (Zero t))])) (TStruct fs)"
    by (rule determineFixedSize_ignores_value)
  ultimately show ?thesis
    by (subst (1 2) DetermineSize.simps) (simp del: DetermineSize.simps determineFixedSize.simps)
qed

text \<open>
  C7. A container whose field \<open>i\<close> is a pointer: marshaling it with that field
  nil gives the result of marshaling it with the field pointing to the zero value
  of the pointee, in the structure codec for every buffer and offset, and so in
  \<^verbatim>\<open>Marshal\<close> for the container passed by value or by pointer.
\<close>

theorem nil_sub_field_marshals_as_zero:
  assumes "i < length fs" and "Type (fs ! i) = TPtr t"
  shows "structSSZ_Marshal (map (\<lambda>f. SSZFactory (Type f)) fs)
             (VStruct (vs[i := VPtr None])) (TStruct fs) buf startOffset
           = structSSZ_Marshal (map (\<lambda>f. SSZFactory (Type f)) fs)
               (VStruct (vs[i := VPtr (Some (Zero t))])) (TStruct fs) buf startOffset
       \<and> ssz_Marshal (Some \<lparr>itype = TStruct fs, ivalue = VStruct (vs[i := VPtr None]),
                             MarshalSSZ = None, UnmarshalSSZ = u\<rparr>)
           = ssz_Marshal (Some \<lparr>itype = TStruct fs, ivalue = VStruct (vs[i := VPtr (Some (Zero t))]),
                                 MarshalSSZ = None, UnmarshalSSZ = u\<rparr>)
       \<and> ssz_Marshal (Some \<lparr>itype = TPtr (TStruct fs),
                             ivalue = VPtr (Some (VStruct (vs[i := VPtr None]))),
                             MarshalSSZ = None, UnmarshalSSZ = u\<rparr>)
           = ssz_Marshal (Some \<lparr>itype = TPtr (TStruct fs),
                                 ivalue = VPtr (Some (VStruct (vs[i := VPtr (Some (Zero t))]))),
                                 MarshalSSZ = None, UnmarshalSSZ = u\<rparr>)"
proof -
  note codec = structSSZ_Marshal_update [OF assms, of vs]
  note size = DetermineSize_update [OF assms(2), of vs]
  have psize: "DetermineSize (VPtr (Some (VStruct (vs[i := VPtr None])))) (TPtr (TStruct fs))
      = DetermineSize (VPtr (Some (VStruct (vs[i := VPtr (Some (Zero t))])))) (TPtr (TStruct fs))"
    using size by (subst (1 2) DetermineSize.simps) (simp del: DetermineSize.simps)
  show ?thesis
    using codec size psize
    by (simp add: ssz_Marshal_def del: DetermineSize.simps structSSZ_Marshal.simps)
qed

theorem nil_sub_field_marshals_as_zero_witness:
  "ssz_Marshal (Some \<lparr>itype = TPtr (TStruct [StructField ''Slot'' TUint64 None,
                                               StructField ''Body'' (TPtr (TStruct [StructField ''Epoch'' TUint64 None])) None]),
                        ivalue = VPtr (Some (VStruct [VUint64 5, VPtr None])),
                        MarshalSSZ = None, UnmarshalSSZ = None\<rparr>)
     = Inr [5, 0, 0, 0, 0, 0, 0, 0, 0, 0, 0, 0, 0, 0, 0, 0]
   \<and> ssz_Marshal (Some \<lparr>itype = TPtr (TStruct [StructField ''Slot'' TUint64 None,
                                               StructField ''Body'' (TPtr (TStruct [StructField ''Epoch'' TUint64 None])) None]),
                        ivalue = VPtr (Some (VStruct [VUint64 5, VPtr (Some (VStruct [VUint64 0]))])),
                        MarshalSSZ = None, UnmarshalSSZ = None\<rparr>)
     = Inr [5, 0, 0, 0, 0, 0, 0, 0, 0, 0, 0, 0, 0, 0, 0, 0]"
proof -
  let ?fs = "[StructField ''Slot'' TUint64 None,
              StructField ''Body'' (TPtr (TStruct [StructField ''Epoch'' TUint64 None])) None]"
  have a: "ssz_Marshal (Some \<lparr>itype = TPtr (TStruct ?fs),
                        ivalue = VPtr (Some (VStruct [VUint64 5, VPtr None])),
                        MarshalSSZ = None, UnmarshalSSZ = None\<rparr>)
     = Inr [5, 0, 0, 0, 0, 0, 0, 0, 0, 0, 0, 0, 0, 0, 0, 0]"
  proof -
    have zeros: "replicate 16 (0 :: byte) = [0, 0, 0, 0, 0, 0, 0, 0, 0, 0, 0, 0, 0, 0, 0, 0]"
      by (simp add: eval_nat_numeral)
    show ?thesis
      by (simp add: ssz_Marshal_def zeros)
         (simp add: determineFieldType_def BytesPerLengthOffset_def basicSSZ_def
            write_bytes_def copy_to_def PutUint64_def)
  qed
  have "1 < length ?fs" and "Type (?fs ! 1) = TPtr (TStruct [StructField ''Epoch'' TUint64 None])"
    by simp_all
  from nil_sub_field_marshals_as_zero [OF this, of "[VUint64 5, VPtr None]" _ _ None] a
  show ?thesis by simp
qed

subsection \<open>Every codec keeps to its frame\<close>

lemma take_eq_below:
  assumes "take n xs = take n ys" and "m \<le> n"
  shows "take m xs = take m ys"
proof -
  have "take m (take n xs) = take m (take n ys)"
    using assms(1) by simp
  then show ?thesis
    using assms(2) by (simp add: min_absorb1)
qed

lemma copy_to_frame:
  assumes "copy_to buf lo src = Inr buf'"
  shows "length buf' = length buf \<and> take lo buf' = take lo buf
         \<and> lo + length src \<le> length buf
         \<and> take (length src) (drop lo buf') = src"
  using assms by (auto simp: copy_to_def split: if_splits)

lemma write_bytes_frame:
  assumes "write_bytes buf index bs = Inr (index', buf')"
  shows "index \<le> index' \<and> length buf' = length buf \<and> take index buf' = take index buf"
  using assms copy_to_frame [of buf index bs]
  by (auto simp: write_bytes_def split: sum.splits)

lemma basicSSZ_frame: "frame basicSSZ"
  unfolding frame_def basicSSZ_def
proof (intro allI impI)
  fix val ty buf index index' buf'
  assume "Marshal \<lparr>Marshal = basicSSZ_Marshal, Unmarshal = basicSSZ_Unmarshal\<rparr> val ty buf index
            = Inr (index', buf')"
  then show "index \<le> index' \<and> length buf' = length buf \<and> take index buf' = take index buf"
    by (cases val) (auto dest: write_bytes_frame)
qed

lemma stringSSZ_Marshal_loop_frame:
  "stringSSZ_Marshal_loop s buf pos = Inr buf' \<Longrightarrow>
   length buf' = length buf \<and> take pos buf' = take pos buf"
proof (induction s arbitrary: buf pos)
  case Nil
  then show ?case by simp
next
  case (Cons c cs)
  from Cons.prems have lt: "pos < length buf"
    and run: "stringSSZ_Marshal_loop cs (buf[pos := byte_of_char c]) (pos + 1) = Inr buf'"
    by (auto split: if_splits)
  from Cons.IH [OF run] have len: "length buf' = length buf"
    and tk: "take (pos + 1) buf' = take (pos + 1) (buf[pos := byte_of_char c])"
    by simp_all
  from take_eq_below [OF tk, of pos] have "take pos buf' = take pos buf"
    by simp
  with len show ?case by simp
qed

lemma stringSSZ_frame: "frame stringSSZ"
  unfolding frame_def stringSSZ_def
proof (intro allI impI)
  fix val ty buf index index' buf'
  assume "Marshal \<lparr>Marshal = stringSSZ_Marshal, Unmarshal = stringSSZ_Unmarshal\<rparr> val ty buf index
            = Inr (index', buf')"
  then show "index \<le> index' \<and> length buf' = length buf \<and> take index buf' = take index buf"
    by (cases val) (auto split: sum.splits dest: stringSSZ_Marshal_loop_frame)
qed

lemma frameD:
  assumes "frame factory" and "Marshal factory val typ buf index = Inr (index', buf')"
  shows "index \<le> index'" and "length buf' = length buf" and "take index buf' = take index buf"
  using assms unfolding frame_def by blast+

lemma marshal_elements_frame:
  assumes "frame factory"
  shows "marshal_elements factory et vs buf index = Inr (index', buf') \<Longrightarrow>
     index \<le> index' \<and> length buf' = length buf \<and> take index buf' = take index buf"
proof (induction vs arbitrary: buf index)
  case Nil
  then show ?case by simp
next
  case (Cons v vs)
  from Cons.prems obtain i1 b1 where
    one: "Marshal factory v et buf index = Inr (i1, b1)"
    and rest: "marshal_elements factory et vs b1 i1 = Inr (index', buf')"
    by (auto split: sum.splits)
  note f = frameD [OF assms one]
  from Cons.IH [OF rest] have "i1 \<le> index'" "length buf' = length b1" "take i1 buf' = take i1 b1"
    by simp_all
  with f take_eq_below [of i1 buf' b1 index] show ?case
    by simp
qed

lemma length_PutUint32 [simp]: "length (PutUint32 w) = 4"
  by (simp add: PutUint32_def)

lemma write_offset_frame:
  assumes "write_offset buf fixedIndex cur startOffset = Inr buf'"
  shows "length buf' = length buf \<and> take fixedIndex buf' = take fixedIndex buf
         \<and> fixedIndex + 4 \<le> length buf
         \<and> take 4 (drop fixedIndex buf') = PutUint32 (of_nat (cur - startOffset))"
  using assms copy_to_frame [of buf fixedIndex "PutUint32 (of_nat (cur - startOffset))" buf']
  by (simp add: write_offset_def)

lemma marshal_elements_with_offsets_frame:
  assumes "frame factory"
  shows "marshal_elements_with_offsets factory et vs buf startOffset fixedIndex cur = Inr (index', buf') \<Longrightarrow>
     lo \<le> fixedIndex \<Longrightarrow> lo \<le> cur \<Longrightarrow>
     cur \<le> index' \<and> length buf' = length buf \<and> take lo buf' = take lo buf"
proof (induction vs arbitrary: buf fixedIndex cur)
  case Nil
  then show ?case by simp
next
  case (Cons v vs)
  from Cons.prems(1) obtain nxt b1 b2 where
    one: "Marshal factory v et buf cur = Inr (nxt, b1)"
    and off: "write_offset b1 fixedIndex cur startOffset = Inr b2"
    and rest: "marshal_elements_with_offsets factory et vs b2 startOffset
                 (fixedIndex + BytesPerLengthOffset) nxt = Inr (index', buf')"
    by (auto split: sum.splits)
  note f = frameD [OF assms one]
  note w = write_offset_frame [OF off]
  have ih: "nxt \<le> index' \<and> length buf' = length b2 \<and> take lo buf' = take lo b2"
    using Cons.prems(2,3) f(1) by (intro Cons.IH [OF rest]) simp_all
  have t2: "take lo b2 = take lo b1"
    using w Cons.prems(2) by (auto intro: take_eq_below [of fixedIndex])
  have t1: "take lo b1 = take lo buf"
    using f(3) Cons.prems(3) by (rule take_eq_below)
  have "cur \<le> index'"
    using ih f(1) by linarith
  moreover have "length buf' = length buf"
    using ih w f(2) by (simp only:)
  moreover have "take lo buf' = take lo buf"
    using ih t2 t1 by (simp only:)
  ultimately show ?case
    by blast
qed

lemma structSSZ_Marshal_fields_frame:
  assumes "\<And>f fac factory. (f, fac) \<in> set ffs \<Longrightarrow> fac = Inr factory \<Longrightarrow> frame factory"
  shows "structSSZ_Marshal_fields val ffs i buf startOffset fixedIndex cur = Inr (index', buf') \<Longrightarrow>
     lo \<le> fixedIndex \<Longrightarrow> lo \<le> cur \<Longrightarrow>
     cur \<le> index' \<and> length buf' = length buf \<and> take lo buf' = take lo buf"
  using assms
proof (induction ffs arbitrary: i buf fixedIndex cur)
  case Nil
  then show ?case by simp
next
  case (Cons p ffs)
  obtain f fac where p: "p = (f, fac)" by (cases p)
  from Cons.prems(1) p obtain fv factory where
    fv: "Field val i = Inr fv" and fac: "fac = Inr factory"
    by (auto simp: determineFieldType_def split: sum.splits)
  have fr: "frame factory"
    using Cons.prems(4) [of f fac factory] p fac by simp
  have tail: "\<And>f fac factory. (f, fac) \<in> set ffs \<Longrightarrow> fac = Inr factory \<Longrightarrow> frame factory"
    using Cons.prems(4) by auto
  show ?case
  proof (cases "isVariableSizeType (Type f)")
    case False
    with Cons.prems(1) p fv fac obtain fi b1 where
      one: "Marshal factory fv (Type f) buf fixedIndex = Inr (fi, b1)"
      and rest: "structSSZ_Marshal_fields val ffs (i + 1) b1 startOffset fi cur = Inr (index', buf')"
      by (auto simp: determineFieldType_def split: sum.splits)
    note m = frameD [OF fr one]
    have ih: "cur \<le> index' \<and> length buf' = length b1 \<and> take lo buf' = take lo b1"
      using Cons.prems(2,3) m(1) tail by (intro Cons.IH [OF rest]) simp_all
    have t1: "take lo b1 = take lo buf"
      using m(3) Cons.prems(2) by (rule take_eq_below)
    have "length buf' = length buf"
      using ih m(2) by (simp only:)
    moreover have "take lo buf' = take lo buf"
      using ih t1 by (simp only:)
    ultimately show ?thesis
      using ih by blast
  next
    case True
    with Cons.prems(1) p fv fac obtain nxt b1 b2 where
      one: "Marshal factory fv (Type f) buf cur = Inr (nxt, b1)"
      and off: "write_offset b1 fixedIndex cur startOffset = Inr b2"
      and rest: "structSSZ_Marshal_fields val ffs (i + 1) b2 startOffset
                   (fixedIndex + BytesPerLengthOffset) nxt = Inr (index', buf')"
      by (auto simp: determineFieldType_def split: sum.splits)
    note m = frameD [OF fr one]
    note w = write_offset_frame [OF off]
    have ih: "nxt \<le> index' \<and> length buf' = length b2 \<and> take lo buf' = take lo b2"
      using Cons.prems(2,3) m(1) tail by (intro Cons.IH [OF rest]) simp_all
    have t2: "take lo b2 = take lo b1"
      using w Cons.prems(2) by (auto intro: take_eq_below [of fixedIndex])
    have t1: "take lo b1 = take lo buf"
      using m(3) Cons.prems(3) by (rule take_eq_below)
    have "cur \<le> index'"
      using ih m(1) by linarith
    moreover have "length buf' = length buf"
      using ih w m(2) by (simp only:)
    moreover have "take lo buf' = take lo buf"
      using ih t2 t1 by (simp only:)
    ultimately show ?thesis
      by blast
  qed
qed

lemma structSSZ_Marshal_frame:
  "structSSZ_Marshal facs val ty buf startOffset = Inr (index', buf') \<Longrightarrow>
   \<forall>factory. Inr factory \<in> set facs \<longrightarrow> frame factory \<Longrightarrow>
   startOffset \<le> index' \<and> length buf' = length buf \<and> take startOffset buf' = take startOffset buf"
proof (induction facs val ty buf startOffset rule: structSSZ_Marshal.induct)
  case (1 facs val t buf startOffset)
  then show ?case
    by (auto split: rvalue.splits option.splits)
next
  case (2 facs val fs buf startOffset)
  from "2.prems"(1) obtain fixedLength where
    run: "structSSZ_Marshal_fields val (zip fs facs) 0 buf startOffset startOffset
            (startOffset + fixedLength) = Inr (index', buf')"
    by (auto split: sum.splits)
  have "startOffset + fixedLength \<le> index' \<and> length buf' = length buf
        \<and> take startOffset buf' = take startOffset buf"
  proof (rule structSSZ_Marshal_fields_frame [OF _ run])
    fix f fac factory
    assume "(f, fac) \<in> set (zip fs facs)" and "fac = Inr factory"
    then have "Inr factory \<in> set facs"
      by (auto dest: set_zip_rightD)
    with "2.prems"(2) show "frame factory"
      by blast
  qed simp_all
  then show ?case by simp
qed simp_all

lemma collection_Marshal_frame:
  assumes "\<And>factory. fac = Inr factory \<Longrightarrow> frame factory"
  shows "basicSliceSSZ_Marshal fac val ty buf startOffset = Inr (index', buf') \<Longrightarrow>
           startOffset \<le> index' \<and> length buf' = length buf \<and> take startOffset buf' = take startOffset buf"
    and "basicArraySSZ_Marshal fac val ty buf startOffset = Inr (index', buf') \<Longrightarrow>
           startOffset \<le> index' \<and> length buf' = length buf \<and> take startOffset buf' = take startOffset buf"
    and "compositeSliceSSZ_Marshal fac val ty buf startOffset = Inr (index', buf') \<Longrightarrow>
           startOffset \<le> index' \<and> length buf' = length buf \<and> take startOffset buf' = take startOffset buf"
    and "compositeArraySSZ_Marshal fac val ty buf startOffset = Inr (index', buf') \<Longrightarrow>
           startOffset \<le> index' \<and> length buf' = length buf \<and> take startOffset buf' = take startOffset buf"
proof -
  have fixed: "\<And>factory et vs. fac = Inr factory \<Longrightarrow>
      marshal_elements factory et vs buf startOffset = Inr (index', buf') \<Longrightarrow>
      startOffset \<le> index' \<and> length buf' = length buf \<and> take startOffset buf' = take startOffset buf"
    using assms marshal_elements_frame by blast
  have variable: "\<And>factory et vs cur. fac = Inr factory \<Longrightarrow> startOffset \<le> cur \<Longrightarrow>
      marshal_elements_with_offsets factory et vs buf startOffset startOffset cur = Inr (index', buf') \<Longrightarrow>
      startOffset \<le> index' \<and> length buf' = length buf \<and> take startOffset buf' = take startOffset buf"
  proof -
    fix factory et vs cur
    assume f: "fac = Inr factory" and c: "startOffset \<le> cur"
      and run: "marshal_elements_with_offsets factory et vs buf startOffset startOffset cur = Inr (index', buf')"
    from marshal_elements_with_offsets_frame [OF assms [OF f] run, of startOffset] c
    show "startOffset \<le> index' \<and> length buf' = length buf \<and> take startOffset buf' = take startOffset buf"
      by simp
  qed
  show "basicSliceSSZ_Marshal fac val ty buf startOffset = Inr (index', buf') \<Longrightarrow>
           startOffset \<le> index' \<and> length buf' = length buf \<and> take startOffset buf' = take startOffset buf"
    using fixed by (auto simp: basicSliceSSZ_Marshal_def split: option.splits if_splits sum.splits)
  show "basicArraySSZ_Marshal fac val ty buf startOffset = Inr (index', buf') \<Longrightarrow>
           startOffset \<le> index' \<and> length buf' = length buf \<and> take startOffset buf' = take startOffset buf"
    using fixed by (auto simp: basicArraySSZ_Marshal_def split: option.splits if_splits sum.splits)
  show "compositeSliceSSZ_Marshal fac val ty buf startOffset = Inr (index', buf') \<Longrightarrow>
           startOffset \<le> index' \<and> length buf' = length buf \<and> take startOffset buf' = take startOffset buf"
    using fixed variable [of _ "startOffset + _"]
    by (auto simp: compositeSliceSSZ_Marshal_def split: option.splits if_splits sum.splits)
  show "compositeArraySSZ_Marshal fac val ty buf startOffset = Inr (index', buf') \<Longrightarrow>
           startOffset \<le> index' \<and> length buf' = length buf \<and> take startOffset buf' = take startOffset buf"
    using fixed variable [of _ "startOffset + _"]
    by (auto simp: compositeArraySSZ_Marshal_def split: option.splits if_splits sum.splits)
qed

lemma SSZFactory_frame:
  "SSZFactory t = Inr factory \<Longrightarrow> frame factory"
proof (induction t arbitrary: factory rule: SSZFactory.induct)
  case (7 t)
  have el: "\<And>f. SSZFactory t = Inr f \<Longrightarrow> frame f"
    using "7.IH" by (cases "isVariableSizeType t") auto
  show ?case
    using "7.prems" collection_Marshal_frame(1,3) [of "SSZFactory t", OF el]
    by (auto simp: frame_def split: if_splits)
next
  case (8 n t)
  have el: "\<And>f. SSZFactory t = Inr f \<Longrightarrow> frame f"
    using "8.IH" by (cases "isVariableSizeType t") auto
  show ?case
    using "8.prems" collection_Marshal_frame(2,4) [of "SSZFactory t", OF el]
    by (auto simp: frame_def split: if_splits)
next
  case (9 fs)
  have "\<forall>f. Inr f \<in> set (map (\<lambda>f. SSZFactory (Type f)) fs) \<longrightarrow> frame f"
    using "9.IH" by auto
  then show ?case
    using "9.prems" structSSZ_Marshal_frame [of "map (\<lambda>f. SSZFactory (Type f)) fs"]
    by (auto simp: frame_def)
qed (auto simp: basicSSZ_frame stringSSZ_frame)

subsection \<open>The offset table of a composite with variable-size elements\<close>

lemma le_nat_le_bytes: "le_nat (le_bytes n v) = v mod 256 ^ n"
proof (induction n arbitrary: v)
  case 0
  then show ?case by simp
next
  case (Suc n)
  have "unat (of_nat (v mod 256) :: byte) = v mod 256"
    by (simp add: unat_of_nat)
  with Suc show ?case
    by (simp add: mod_mult2_eq)
qed

lemma le_nat_PutUint32: "le_nat (PutUint32 w) = unat w"
proof -
  have "unat w < 2 ^ 32"
    using unsigned_less [of w] by simp
  then have "unat w mod 256 ^ Suc (Suc (Suc (Suc 0))) = unat w"
    by simp
  then show ?thesis
    unfolding PutUint32_def le_nat_le_bytes .
qed

lemma marshal_elements_with_offsets_table:
  assumes "frame factory"
  shows "marshal_elements_with_offsets factory et vs buf startOffset fixedIndex cur = Inr (index', buf') \<Longrightarrow>
     fixedIndex + 4 * length vs \<le> cur \<Longrightarrow>
     \<exists>offs. length offs = length vs \<and> sorted (cur # offs) \<and> (\<forall>x \<in> set offs. x \<le> index')
       \<and> (vs \<noteq> [] \<longrightarrow> hd offs = cur) \<and> cur \<le> index'
       \<and> (\<forall>k < length vs. take 4 (drop (fixedIndex + 4 * k) buf')
              = PutUint32 (of_nat (offs ! k - startOffset)))
       \<and> length buf' = length buf \<and> take fixedIndex buf' = take fixedIndex buf"
proof (induction vs arbitrary: buf fixedIndex cur)
  case Nil
  then show ?case by simp
next
  case (Cons v vs)
  from Cons.prems(1) obtain nxt b1 b2 where
    one: "Marshal factory v et buf cur = Inr (nxt, b1)"
    and off: "write_offset b1 fixedIndex cur startOffset = Inr b2"
    and rest: "marshal_elements_with_offsets factory et vs b2 startOffset
                 (fixedIndex + BytesPerLengthOffset) nxt = Inr (index', buf')"
    by (auto split: sum.splits)
  note m = frameD [OF assms one]
  note w = write_offset_frame [OF off]
  have pre: "fixedIndex + BytesPerLengthOffset + 4 * length vs \<le> nxt"
    using Cons.prems(2) m(1) by (simp add: BytesPerLengthOffset_def)
  from Cons.IH [OF rest pre] obtain offs where
    len: "length offs = length vs" and srt: "sorted (nxt # offs)"
    and ub: "\<forall>x \<in> set offs. x \<le> index'" and nx: "nxt \<le> index'"
    and tab: "\<forall>k < length vs. take 4 (drop (fixedIndex + BytesPerLengthOffset + 4 * k) buf')
                = PutUint32 (of_nat (offs ! k - startOffset))"
    and bl: "length buf' = length b2"
    and fr: "take (fixedIndex + BytesPerLengthOffset) buf' = take (fixedIndex + BytesPerLengthOffset) b2"
    by blast
  have first: "take 4 (drop fixedIndex buf') = PutUint32 (of_nat (cur - startOffset))"
  proof -
    have "take 4 (drop fixedIndex buf') = drop fixedIndex (take (fixedIndex + 4) buf')"
      by (simp add: drop_take)
    also have "\<dots> = drop fixedIndex (take (fixedIndex + 4) b2)"
      using fr by (simp add: BytesPerLengthOffset_def)
    also have "\<dots> = take 4 (drop fixedIndex b2)"
      by (simp add: drop_take)
    finally show ?thesis
      using w by simp
  qed
  have table: "\<forall>k < length (v # vs). take 4 (drop (fixedIndex + 4 * k) buf')
                = PutUint32 (of_nat ((cur # offs) ! k - startOffset))"
  proof (intro allI impI)
    fix k
    assume k: "k < length (v # vs)"
    show "take 4 (drop (fixedIndex + 4 * k) buf') = PutUint32 (of_nat ((cur # offs) ! k - startOffset))"
    proof (cases k)
      case 0
      with first show ?thesis by simp
    next
      case (Suc j)
      with k have "j < length vs" by simp
      with tab have "take 4 (drop (fixedIndex + BytesPerLengthOffset + 4 * j) buf')
                = PutUint32 (of_nat (offs ! j - startOffset))"
        by blast
      moreover have "fixedIndex + BytesPerLengthOffset + 4 * j = fixedIndex + 4 * k"
        using Suc by (simp add: BytesPerLengthOffset_def)
      ultimately show ?thesis
        using Suc by simp
    qed
  qed
  have below: "take fixedIndex buf' = take fixedIndex buf"
  proof -
    have "take fixedIndex buf' = take fixedIndex b2"
      using fr by (rule take_eq_below) simp
    also have "\<dots> = take fixedIndex b1"
      using w by simp
    also have "\<dots> = take fixedIndex buf"
      using m(3) Cons.prems(2) by (auto intro: take_eq_below [of cur])
    finally show ?thesis .
  qed
  have "sorted (cur # cur # offs)"
    using srt m(1) by auto
  moreover have "\<forall>x \<in> set (cur # offs). x \<le> index'"
    using ub nx m(1) by auto
  moreover have "length buf' = length buf"
    using bl w m(2) by (simp only:)
  ultimately show ?case
    using len nx m(1) table below
    by (intro exI [of _ "cur # offs"]) (simp del: sorted_wrt.simps)
qed

lemma compositeArraySSZ_Marshal_eq: "compositeArraySSZ_Marshal = compositeSliceSSZ_Marshal"
  by (intro ext) (simp add: compositeArraySSZ_Marshal_def compositeSliceSSZ_Marshal_def)

text \<open>
  C8, as amended. A slice or an array of \<open>L\<close> elements of a variable-size type \<open>et\<close>,
  marshaled at \<open>startOffset\<close> with the codec \<^verbatim>\<open>SSZFactory\<close> gives for \<open>et\<close>:
  when the encoder succeeds and the serialization is shorter than \<open>2 ^ 32\<close>
  bytes (every offset fits \<^verbatim>\<open>uint32\<close>), the output begins with \<open>L * 4\<close> bytes of
  offsets, the first offset written is \<open>L * 4\<close>, and the offsets written are
  non-decreasing. \<^verbatim>\<open>compositeArraySSZ.Marshal\<close> is the same function as
  \<^verbatim>\<open>compositeSliceSSZ.Marshal\<close>.
\<close>

theorem composite_offset_table:
  assumes var: "isVariableSizeType et"
    and vs: "Elems val = Some vs"
    and et: "Elem ty = Some et"
    and run: "compositeSliceSSZ_Marshal (SSZFactory et) val ty buf startOffset = Inr (index', buf')"
    and fits: "index' - startOffset < 2 ^ 32"
  shows "startOffset + length vs * 4 \<le> index'
       \<and> (vs \<noteq> [] \<longrightarrow> hd (offsets_written buf' startOffset (length vs)) = length vs * 4)
       \<and> sorted (offsets_written buf' startOffset (length vs))
       \<and> compositeArraySSZ_Marshal (SSZFactory et) val ty buf startOffset = Inr (index', buf')"
proof (cases "vs = []")
  case True
  with run vs show ?thesis
    by (simp add: compositeSliceSSZ_Marshal_def compositeArraySSZ_Marshal_eq offsets_written_def)
next
  case False
  with run vs et var obtain factory where
    fac: "SSZFactory et = Inr factory"
    and loop: "marshal_elements_with_offsets factory et vs buf startOffset startOffset
                 (startOffset + length vs * BytesPerLengthOffset) = Inr (index', buf')"
    by (auto simp: compositeSliceSSZ_Marshal_def split: sum.splits)
  have "startOffset + 4 * length vs \<le> startOffset + length vs * BytesPerLengthOffset"
    by (simp add: BytesPerLengthOffset_def)
  from marshal_elements_with_offsets_table [OF SSZFactory_frame [OF fac] loop this]
  obtain offs where
    len: "length offs = length vs"
    and srt: "sorted ((startOffset + length vs * BytesPerLengthOffset) # offs)"
    and ub: "\<forall>x \<in> set offs. x \<le> index'"
    and hd: "hd offs = startOffset + length vs * BytesPerLengthOffset"
    and le: "startOffset + length vs * BytesPerLengthOffset \<le> index'"
    and tab: "\<forall>k < length vs. take 4 (drop (startOffset + 4 * k) buf')
                = PutUint32 (of_nat (offs ! k - startOffset))"
    using False by blast
  have val: "\<And>k. k < length vs \<Longrightarrow>
      le_nat (take 4 (drop (startOffset + 4 * k) buf')) = offs ! k - startOffset"
  proof -
    fix k
    assume k: "k < length vs"
    with len ub have "offs ! k \<le> index'"
      by simp
    with fits have "offs ! k - startOffset < 2 ^ 32"
      by simp
    then have "unat (of_nat (offs ! k - startOffset) :: 32 word) = offs ! k - startOffset"
      by (simp add: unat_of_nat)
    with tab k show "le_nat (take 4 (drop (startOffset + 4 * k) buf')) = offs ! k - startOffset"
      by (simp add: le_nat_PutUint32)
  qed
  have "offsets_written buf' startOffset (length vs) = map (\<lambda>k. offs ! k - startOffset) [0..<length offs]"
    using val len by (simp add: offsets_written_def)
  also have "\<dots> = map (\<lambda>x. x - startOffset) (map (\<lambda>k. offs ! k) [0..<length offs])"
    by simp
  also have "\<dots> = map (\<lambda>x. x - startOffset) offs"
    by (simp only: map_nth)
  finally have ow: "offsets_written buf' startOffset (length vs) = map (\<lambda>x. x - startOffset) offs" .
  have ne: "offs \<noteq> []"
    using len False by auto
  have "sorted offs"
    using srt by simp
  then have "sorted (map (\<lambda>x. x - startOffset) offs)"
    by (simp add: sorted_map sorted_wrt_mono_rel [of offs "(\<le>)"] diff_le_mono)
  moreover have "hd (map (\<lambda>x. x - startOffset) offs) = length vs * 4"
    using ne hd by (simp add: hd_map BytesPerLengthOffset_def)
  ultimately show ?thesis
    using ow le run by (simp add: BytesPerLengthOffset_def compositeArraySSZ_Marshal_eq)
qed

theorem composite_offset_table_witness:
  "compositeSliceSSZ_Marshal (SSZFactory (TSlice TUint8))
      (VSlice [VSlice [VUint8 1], VSlice [VUint8 2, VUint8 3]]) (TSlice (TSlice TUint8))
      [0, 0, 0, 0, 0, 0, 0, 0, 0, 0, 0] 0
     = Inr (11, [8, 0, 0, 0, 9, 0, 0, 0, 1, 2, 3])
   \<and> offsets_written [8, 0, 0, 0, 9, 0, 0, 0, 1, 2, 3] 0 2 = [8, 9]
   \<and> sorted (offsets_written [8, 0, 0, 0, 9, 0, 0, 0, 1, 2, 3] 0 2)"
proof -
  have run: "compositeSliceSSZ_Marshal (SSZFactory (TSlice TUint8))
      (VSlice [VSlice [VUint8 1], VSlice [VUint8 2, VUint8 3]]) (TSlice (TSlice TUint8))
      [0, 0, 0, 0, 0, 0, 0, 0, 0, 0, 0] 0
     = Inr (11, [8, 0, 0, 0, 9, 0, 0, 0, 1, 2, 3])"
    by (simp add: compositeSliceSSZ_Marshal_def basicSliceSSZ_Marshal_def basicSSZ_def
        write_bytes_def copy_to_def write_offset_def PutUint32_def BytesPerLengthOffset_def)
  have ow: "offsets_written [8, 0, 0, 0, 9, 0, 0, 0, 1, 2, 3] 0 2 = [8, 9]"
    by (simp add: offsets_written_def upt_rec)
  have var: "isVariableSizeType (TSlice TUint8)"
    and vs: "Elems (VSlice [VSlice [VUint8 1], VSlice [VUint8 2, VUint8 3]])
               = Some [VSlice [VUint8 1], VSlice [VUint8 2, VUint8 3]]"
    and et: "Elem (TSlice (TSlice TUint8)) = Some (TSlice TUint8)"
    and fits: "(11 :: nat) - 0 < 2 ^ 32"
    by simp_all
  have two: "length [VSlice [VUint8 1], VSlice [VUint8 2, VUint8 3]] = 2"
    by simp
  from composite_offset_table [OF var vs et run fits]
  have "sorted (offsets_written [8, 0, 0, 0, 9, 0, 0, 0, 1, 2, 3] 0
          (length [VSlice [VUint8 1], VSlice [VUint8 2, VUint8 3]]))"
    by blast
  then have "sorted (offsets_written [8, 0, 0, 0, 9, 0, 0, 0, 1, 2, 3] 0 2)"
    unfolding two .
  with run ow show ?thesis
    by (simp only: simp_thms)
qed

subsection \<open>Buffers, and what a codec writes\<close>

text \<open>
  The algebra of \<open>splice\<close>, the bytes of the fixed-width integers, and the
  loops of \<^verbatim>\<open>Marshal\<close> over the elements of a slice or an array, with and
  without a table of offsets; then facts about lists that the decoders need.
\<close>

lemma splice_Nil [simp]: "splice buf lo [] = buf"
  by (simp add: splice_def)

lemma length_splice [simp]:
  "lo + length src \<le> length buf \<Longrightarrow> length (splice buf lo src) = length buf"
  by (simp add: splice_def)

lemma copy_to_splice:
  "lo + length src \<le> length buf \<Longrightarrow> copy_to buf lo src = Inr (splice buf lo src)"
  by (simp add: copy_to_def splice_def)

lemma splice_whole: "length src = length buf \<Longrightarrow> splice buf 0 src = src"
  by (simp add: splice_def)

lemma splice_adjacent:
  "i + length a + length b \<le> length buf \<Longrightarrow>
   splice (splice buf i a) (i + length a) b = splice buf i (a @ b)"
  by (simp add: splice_def ac_simps)

lemma splice_commute:
  "i + length a \<le> j \<Longrightarrow> j + length b \<le> length buf \<Longrightarrow>
   splice (splice buf j b) i a = splice (splice buf i a) j b"
  by (simp add: splice_def drop_take)

lemma of_nat_le_nat_PutUint16 [simp]: "of_nat (le_nat (PutUint16 w)) = w"
proof -
  have "unat w < 2 ^ 16" using unsigned_less [of w] by simp
  then have "unat w mod 256 ^ Suc (Suc 0) = unat w" by simp
  then have "le_nat (PutUint16 w) = unat w"
    unfolding PutUint16_def le_nat_le_bytes .
  then show ?thesis by simp
qed

lemma of_nat_le_nat_PutUint32 [simp]: "of_nat (le_nat (PutUint32 w)) = w"
  by (simp add: le_nat_PutUint32)

lemma of_nat_le_nat_PutUint64 [simp]: "of_nat (le_nat (PutUint64 w)) = w"
proof -
  have "unat w < 2 ^ 64" using unsigned_less [of w] by simp
  then have "unat w mod 256 ^ Suc (Suc (Suc (Suc (Suc (Suc (Suc (Suc 0))))))) = unat w" by simp
  then have "le_nat (PutUint64 w) = unat w"
    unfolding PutUint64_def le_nat_le_bytes .
  then show ?thesis by simp
qed

lemma length_PutUint16 [simp]: "length (PutUint16 w) = 2"
  by (simp add: PutUint16_def)

lemma length_PutUint64 [simp]: "length (PutUint64 w) = 8"
  by (simp add: PutUint64_def)

lemma stringSSZ_writes: "writes stringSSZ TString (VString s) (map byte_of_char s)"
  by (simp add: writes_def stringSSZ_def stringSSZ_Marshal_loop_writes splice_def)

lemma writesD:
  "writes factory t v bs \<Longrightarrow> index + length bs \<le> length buf \<Longrightarrow>
   Marshal factory v t buf index = Inr (index + length bs, splice buf index bs)"
  by (simp add: writes_def)

lemma marshal_elements_writes:
  "\<forall>v\<in>set vs. writes factory et v (e v) \<Longrightarrow>
   index + length (concat (map e vs)) \<le> length buf \<Longrightarrow>
   marshal_elements factory et vs buf index
     = Inr (index + length (concat (map e vs)), splice buf index (concat (map e vs)))"
proof (induction vs arbitrary: buf index)
  case Nil
  then show ?case by simp
next
  case (Cons v vs)
  let ?E = "concat (map e vs)"
  from Cons.prems have fits: "index + length (e v) + length ?E \<le> length buf"
    by simp
  then have m: "Marshal factory v et buf index = Inr (index + length (e v), splice buf index (e v))"
    using Cons.prems(1) by (intro writesD) auto
  have "marshal_elements factory et vs (splice buf index (e v)) (index + length (e v))
      = Inr (index + length (e v) + length ?E, splice (splice buf index (e v)) (index + length (e v)) ?E)"
    using Cons.prems(1) fits by (intro Cons.IH) auto
  then show ?case
    using m fits by (simp add: splice_adjacent add.assoc)
qed

lemma length_offset_table [simp]: "length (offset_table cur ns) = 4 * length ns"
  by (induction ns arbitrary: cur) auto

lemma marshal_elements_with_offsets_writes:
  "\<forall>v\<in>set vs. writes factory et v (e v) \<Longrightarrow>
   fixedIndex + 4 * length vs \<le> cur \<Longrightarrow> start \<le> cur \<Longrightarrow>
   cur + length (concat (map e vs)) \<le> length buf \<Longrightarrow>
   marshal_elements_with_offsets factory et vs buf start fixedIndex cur
     = Inr (cur + length (concat (map e vs)),
            splice (splice buf fixedIndex (offset_table (cur - start) (map (\<lambda>v. length (e v)) vs)))
              cur (concat (map e vs)))"
proof (induction vs arbitrary: buf fixedIndex cur)
  case Nil
  then show ?case by simp
next
  case (Cons v vs)
  let ?E = "concat (map e vs)"
  let ?P = "PutUint32 (of_nat (cur - start))"
  let ?T = "offset_table (cur + length (e v) - start) (map (\<lambda>v. length (e v)) vs)"
  let ?b1 = "splice buf cur (e v)"
  let ?b2 = "splice ?b1 fixedIndex ?P"
  from Cons.prems have fits: "cur + length (e v) + length ?E \<le> length buf"
    by simp
  from Cons.prems have fi: "fixedIndex + 4 + 4 * length vs \<le> cur"
    by simp
  have m: "Marshal factory v et buf cur = Inr (cur + length (e v), ?b1)"
    using Cons.prems(1) fits by (intro writesD) auto
  have l1: "length ?b1 = length buf"
    using fits by simp
  have w: "write_offset ?b1 fixedIndex cur start = Inr ?b2"
    using fi fits l1 by (simp add: write_offset_def copy_to_splice)
  have l2: "length ?b2 = length buf"
    using fi fits l1 by simp
  have ih: "marshal_elements_with_offsets factory et vs ?b2 start (fixedIndex + 4) (cur + length (e v))
      = Inr (cur + length (e v) + length ?E,
             splice (splice ?b2 (fixedIndex + 4) ?T) (cur + length (e v)) ?E)"
    using Cons.prems(1,3) fi fits l2 by (intro Cons.IH) auto
  have "splice ?b2 (fixedIndex + 4) ?T = splice ?b1 fixedIndex (?P @ ?T)"
    using splice_adjacent [of fixedIndex ?P ?T ?b1] fi fits l1 by simp
  also have "\<dots> = splice (splice buf fixedIndex (?P @ ?T)) cur (e v)"
    using fi fits by (intro splice_commute) auto
  finally have "splice (splice ?b2 (fixedIndex + 4) ?T) (cur + length (e v)) ?E
      = splice (splice buf fixedIndex (?P @ ?T)) cur (e v @ ?E)"
    using fi fits by (simp add: splice_adjacent)
  moreover have "cur + length (e v) - start = cur - start + length (e v)"
    using Cons.prems(3) by simp
  ultimately show ?case
    using m w ih by (simp add: BytesPerLengthOffset_def add.assoc)
qed

lemma basicSliceSSZ_writes:
  assumes "\<forall>v\<in>set vs. writes factory et v (e v)"
  shows "writes \<lparr>Marshal = basicSliceSSZ_Marshal (Inr factory), Unmarshal = u\<rparr> (TSlice et) (VSlice vs)
           (concat (map e vs))"
  using assms by (auto simp: writes_def basicSliceSSZ_Marshal_def marshal_elements_writes)

lemma compositeSliceSSZ_writes:
  assumes "\<forall>v\<in>set vs. writes factory et v (e v)" and "isVariableSizeType et"
  shows "writes \<lparr>Marshal = compositeSliceSSZ_Marshal (Inr factory), Unmarshal = u\<rparr> (TSlice et) (VSlice vs)
           (offset_table (length vs * BytesPerLengthOffset) (map (\<lambda>v. length (e v)) vs)
            @ concat (map e vs))"
proof -
  let ?E = "concat (map e vs)"
  let ?T = "offset_table (length vs * 4) (map (\<lambda>v. length (e v)) vs)"
  have "marshal_elements_with_offsets factory et vs buf index index (index + length vs * 4)
      = Inr (index + length (?T @ ?E), splice buf index (?T @ ?E))"
    if "index + length (?T @ ?E) \<le> length buf" for buf index
  proof -
    have "marshal_elements_with_offsets factory et vs buf index index (index + length vs * 4)
      = Inr (index + length vs * 4 + length ?E,
             splice (splice buf index (offset_table (index + length vs * 4 - index) (map (\<lambda>v. length (e v)) vs)))
               (index + length vs * 4) ?E)"
      using assms(1) that by (intro marshal_elements_with_offsets_writes) auto
    moreover have "splice (splice buf index ?T) (index + length vs * 4) ?E = splice buf index (?T @ ?E)"
      using splice_adjacent [of index ?T ?E buf] that by (simp add: mult.commute)
    ultimately show ?thesis
      by (simp add: add.assoc mult.commute)
  qed
  then show ?thesis
    using assms(2) by (auto simp: writes_def compositeSliceSSZ_Marshal_def BytesPerLengthOffset_def)
qed

lemma chunk_nth:
  "\<forall>x\<in>set xss. length x = sz \<Longrightarrow> k < length xss \<Longrightarrow>
   take sz (drop (k * sz) (concat xss)) = xss ! k"
proof (induction xss arbitrary: k)
  case Nil
  then show ?case by simp
next
  case (Cons x xss)
  show ?case
  proof (cases k)
    case 0
    with Cons.prems show ?thesis by simp
  next
    case (Suc j)
    with Cons.prems have "take sz (drop (j * sz) (concat xss)) = xss ! j"
      by (intro Cons.IH) auto
    with Suc Cons.prems show ?thesis by simp
  qed
qed

lemma length_concat_chunks:
  "\<forall>x\<in>set xss. length x = sz \<Longrightarrow> length (concat xss) = length xss * sz"
  by (induction xss) auto

lemma concat_window:
  "k < length xss \<Longrightarrow>
   drop (sum_list (map length (take k xss)))
     (take (sum_list (map length (take (Suc k) xss))) (concat xss)) = xss ! k"
proof (induction xss arbitrary: k)
  case Nil
  then show ?case by simp
next
  case (Cons x xss)
  show ?case
  proof (cases k)
    case 0
    then show ?thesis by simp
  next
    case (Suc j)
    with Cons.prems have "drop (sum_list (map length (take j xss)))
        (take (sum_list (map length (take (Suc j) xss))) (concat xss)) = xss ! j"
      by (intro Cons.IH) auto
    with Suc show ?thesis by simp
  qed
qed

lemma offset_table_entry:
  "k < length ns \<Longrightarrow>
   take 4 (drop (4 * k) (offset_table c ns @ rest)) = PutUint32 (of_nat (c + sum_list (take k ns)))"
proof (induction ns arbitrary: k c)
  case Nil
  then show ?case by simp
next
  case (Cons n ns)
  show ?case
  proof (cases k)
    case 0
    then show ?thesis by simp
  next
    case (Suc j)
    with Cons.prems have "take 4 (drop (4 * j) (offset_table (c + n) ns @ rest))
        = PutUint32 (of_nat (c + n + sum_list (take j ns)))"
      by (intro Cons.IH) auto
    with Suc show ?thesis by (simp add: add.assoc)
  qed
qed

lemma basicSliceSSZ_Unmarshal_loop_reads:
  assumes "\<forall>k<length vs. \<forall>z. Unmarshal factory z et input (k * sz) = Inr (k * sz + sz, vs ! k)"
  shows "0 < i \<Longrightarrow> i \<le> length vs \<Longrightarrow>
     basicSliceSSZ_Unmarshal_loop factory et input (take i vs) i (length vs) (i * sz)
       = Inr (length vs * sz, VSlice vs)"
proof (induction "length vs - i" arbitrary: i)
  case 0
  then show ?case
    by (simp add: basicSliceSSZ_Unmarshal_loop.simps)
next
  case (Suc d)
  then have lt: "i < length vs" by simp
  have step: "Unmarshal factory z et input (i * sz) = Inr (i * sz + sz, vs ! i)" for z
    using assms lt by simp
  have upd: "(growConcreteSliceType (take i vs) et (Suc i))[i := vs ! i] = take (Suc i) vs"
    using lt by (simp add: growConcreteSliceType_def list_update_append take_Suc_conv_app_nth min_def)
  have ih: "basicSliceSSZ_Unmarshal_loop factory et input (take (Suc i) vs) (Suc i) (length vs) (Suc i * sz)
       = Inr (length vs * sz, VSlice vs)"
    using Suc.hyps(2) lt by (intro Suc.hyps(1)) auto
  show ?case
    using lt step ih upd
    by (subst basicSliceSSZ_Unmarshal_loop.simps) (simp add: add.commute)
qed

lemma singleton_update: "length xs = Suc 0 \<Longrightarrow> xs[0 := v] = [v]"
  by (cases xs) auto

lemma length_growConcreteSliceType [simp]: "length (growConcreteSliceType vs et n) = n"
  by (simp add: growConcreteSliceType_def)

declare compositeSliceSSZ_Unmarshal_loop.simps [simp del]

lemma sum_list_take_le: "sum_list (take k ns) \<le> sum_list (ns :: nat list)"
proof -
  have "sum_list ns = sum_list (take k ns) + sum_list (drop k ns)"
    by (simp flip: sum_list_append)
  then show ?thesis by simp
qed

lemma sum_list_take_Suc:
  "k < length ns \<Longrightarrow> sum_list (take (Suc k) ns) = sum_list (take k ns) + (ns ! k :: nat)"
  by (simp add: take_Suc_conv_app_nth)

lemma drop_take_behind:
  "length xs = n \<Longrightarrow> drop (n + a) (take (n + b) (xs @ ys)) = drop a (take b ys)"
  by simp

lemma length_le_concat: "x \<in> set xss \<Longrightarrow> length x \<le> length (concat xss)"
  by (induction xss) auto

lemma SSZFactory_fixed:
  "t \<in> {TBool, TUint8, TUint16, TUint32, TUint64} \<Longrightarrow> SSZFactory t = Inr basicSSZ"
  by auto

lemma sum_list_offsets:
  "sum_list (map (\<lambda>v. BytesPerLengthOffset + f v) vs) = 4 * length vs + sum_list (map f vs)"
  by (induction vs) (auto simp: BytesPerLengthOffset_def)

subsection \<open>Offsets of a serialization of 4 GiB\<close>

text \<open>
  C8 as stated fails without the bound: a list of two byte lists, the first of
  \<open>2^32 - 8\<close> bytes and the second empty, is marshaled into a buffer of
  \<open>2^32\<close> bytes. The second offset is \<open>2^32\<close>, which \<^verbatim>\<open>uint32(...)\<close>
  truncates to 0: the offsets written are 8 and 0.
\<close>

lemma concat_replicate_single: "concat (map (\<lambda>v. [c]) (replicate n x)) = replicate n c"
  by (induction n) auto

lemma zero_bytes_writes:
  "writes \<lparr>Marshal = basicSliceSSZ_Marshal (Inr basicSSZ), Unmarshal = u\<rparr> (TSlice TUint8)
     (VSlice (replicate n (VUint8 0))) (replicate n 0)"
proof -
  have "writes basicSSZ TUint8 (VUint8 0) [0]"
    by (simp add: writes_def basicSSZ_def write_bytes_def copy_to_splice)
  then have "\<forall>v\<in>set (replicate n (VUint8 0)). writes basicSSZ TUint8 v ((\<lambda>v. [0]) v)"
    by simp
  from basicSliceSSZ_writes [OF this, of u]
  show ?thesis
    by (simp add: concat_replicate_single)
qed

lemma offsets_wrap:
  assumes n: "8 + n = 2 ^ 32"
  shows "compositeSliceSSZ_Marshal (SSZFactory (TSlice TUint8))
      (VSlice [VSlice (replicate n (VUint8 0)), VSlice []]) (TSlice (TSlice TUint8))
      (replicate (8 + n) 0) 0
     = Inr (8 + n, [8, 0, 0, 0, 0, 0, 0, 0] @ replicate n 0)"
proof -
  let ?f = "\<lparr>Marshal = basicSliceSSZ_Marshal (Inr basicSSZ), Unmarshal = basicSliceSSZ_Unmarshal (Inr basicSSZ)\<rparr>"
  let ?e = "\<lambda>v. case v of VSlice xs \<Rightarrow> replicate (length xs) (0 :: byte) | _ \<Rightarrow> []"
  let ?vs = "[VSlice (replicate n (VUint8 0)), VSlice []]"
  have el: "\<forall>v\<in>set ?vs. writes ?f (TSlice TUint8) v (?e v)"
    using zero_bytes_writes [of _ n] zero_bytes_writes [of _ 0] by simp
  have "of_nat (8 + n) = (0 :: 32 word)"
    unfolding n by simp
  then have w: "PutUint32 (of_nat (8 + n)) = [0, 0, 0, 0]"
    by (simp add: PutUint32_def)
  have e: "PutUint32 8 = [8, 0, 0, 0]"
    by (simp add: PutUint32_def)
  have bs: "offset_table (length ?vs * BytesPerLengthOffset) (map (\<lambda>v. length (?e v)) ?vs) @ concat (map ?e ?vs)
      = [8, 0, 0, 0, 0, 0, 0, 0] @ replicate n 0"
    using w e by (simp add: BytesPerLengthOffset_def)
  have "writes \<lparr>Marshal = compositeSliceSSZ_Marshal (Inr ?f), Unmarshal = undefined\<rparr> (TSlice (TSlice TUint8))
      (VSlice ?vs) ([8, 0, 0, 0, 0, 0, 0, 0] @ replicate n 0)"
    using compositeSliceSSZ_writes [OF el, of undefined] unfolding bs by simp
  from writesD [OF this, of 0 "replicate (8 + n) 0"]
  show ?thesis
    by (simp add: splice_def)
qed

theorem offsets_wrap_at_4_GiB:
  "compositeSliceSSZ_Marshal (SSZFactory (TSlice TUint8))
      (VSlice [VSlice (replicate 4294967288 (VUint8 0)), VSlice []]) (TSlice (TSlice TUint8))
      (replicate 4294967296 0) 0
     = Inr (4294967296, [8, 0, 0, 0, 0, 0, 0, 0] @ replicate 4294967288 0)
   \<and> offsets_written ([8, 0, 0, 0, 0, 0, 0, 0] @ replicate 4294967288 0) 0 2 = [8, 0]
   \<and> \<not> sorted (offsets_written ([8, 0, 0, 0, 0, 0, 0, 0] @ replicate 4294967288 0) 0 2)"
proof -
  have n: "8 + (4294967288 :: nat) = 2 ^ 32"
    by simp
  have s: "8 + (4294967288 :: nat) = 4294967296"
    by simp
  have ow: "offsets_written ([8, 0, 0, 0, 0, 0, 0, 0] @ xs) 0 2 = [8, 0]" for xs
    by (simp add: offsets_written_def upt_rec)
  have run: "compositeSliceSSZ_Marshal (SSZFactory (TSlice TUint8))
      (VSlice [VSlice (replicate 4294967288 (VUint8 0)), VSlice []]) (TSlice (TSlice TUint8))
      (replicate 4294967296 0) 0
     = Inr (4294967296, [8, 0, 0, 0, 0, 0, 0, 0] @ replicate 4294967288 0)"
    using offsets_wrap [OF n] unfolding s .
  show ?thesis
    unfolding ow using run by simp
qed

subsection \<open>The length check of Unmarshal\<close>





subsection \<open>Fixed-size elements: how many are decoded\<close>

lemma length_decode_elements:
  "decode_elements dec zs index = Inr (index', vs) \<Longrightarrow> length vs = length zs"
  by (induction zs arbitrary: index vs) (auto split: sum.splits prod.splits)

lemma basicSliceSSZ_Unmarshal_loop_run:
  "length acc = i \<Longrightarrow>
   basicSliceSSZ_Unmarshal_loop factory et input acc i n index
     = (case decode_elements (\<lambda>z k. Unmarshal factory z et input k) (replicate (n - i) (Zero et)) index of
          Inl err \<Rightarrow> Inl err
        | Inr (index', vs) \<Rightarrow> Inr (index', VSlice (acc @ vs)))"
proof (induction "n - i" arbitrary: i acc index)
  case 0
  then show ?case
    by (simp add: basicSliceSSZ_Unmarshal_loop.simps)
next
  case (Suc d)
  then have lt: "i < n" by simp
  then have r: "replicate (n - i) (Zero et) = Zero et # replicate (n - Suc i) (Zero et)"
    by (simp add: Suc_diff_Suc flip: replicate_Suc)
  have nth: "growConcreteSliceType acc et (Suc i) ! i = Zero et"
    using Suc.prems by (auto simp: growConcreteSliceType_def nth_append)
  have upd: "\<And>v. (growConcreteSliceType acc et (Suc i))[i := v] = acc @ [v]"
    using Suc.prems by (auto simp: growConcreteSliceType_def list_update_append)
  have ih: "basicSliceSSZ_Unmarshal_loop factory et input (acc @ [v]) (Suc i) n index'
     = (case decode_elements (\<lambda>z k. Unmarshal factory z et input k) (replicate (n - Suc i) (Zero et)) index' of
          Inl err \<Rightarrow> Inl err
        | Inr (index'', vs) \<Rightarrow> Inr (index'', VSlice ((acc @ [v]) @ vs)))" for v index'
    using Suc.hyps(2) Suc.prems by (intro Suc.hyps(1)) auto
  show ?case
    using lt
    by (subst basicSliceSSZ_Unmarshal_loop.simps)
      (simp add: r nth upd ih split: sum.splits prod.splits)
qed

lemma makeBasicSliceDecoder_loop_run:
  "length acc = i \<Longrightarrow> i \<le> n \<Longrightarrow>
   makeBasicSliceDecoder_loop elem input (acc @ replicate (n - i) z) i n index
     = (case decode_elements (elem input) (replicate (n - i) z) index of
          Inl err \<Rightarrow> Inl (Wrapf err ''failed to decode element of slice'')
        | Inr (index', vs) \<Rightarrow> Inr (index', VSlice (acc @ vs)))"
proof (induction "n - i" arbitrary: i acc index)
  case 0
  then show ?case
    by (simp add: makeBasicSliceDecoder_loop.simps)
next
  case (Suc d)
  then have lt: "i < n" by simp
  then have r: "replicate (n - i) z = z # replicate (n - Suc i) z"
    by (simp add: Suc_diff_Suc flip: replicate_Suc)
  have ih: "makeBasicSliceDecoder_loop elem input ((acc @ [v]) @ replicate (n - Suc i) z) (Suc i) n index'
     = (case decode_elements (elem input) (replicate (n - Suc i) z) index' of
          Inl err \<Rightarrow> Inl (Wrapf err ''failed to decode element of slice'')
        | Inr (index'', vs) \<Rightarrow> Inr (index'', VSlice ((acc @ [v]) @ vs)))" for v index'
    using Suc.hyps(2) Suc.prems lt by (intro Suc.hyps(1)) auto
  show ?case
    using lt Suc.prems(1) ih
    by (subst makeBasicSliceDecoder_loop.simps)
      (simp add: r nth_append list_update_append split: sum.splits prod.splits)
qed

lemma basicArraySSZ_Unmarshal_loop_run:
  "length acc = i \<Longrightarrow> \<forall>z\<in>set zs. \<forall>p. z \<noteq> VPtr p \<Longrightarrow>
   basicArraySSZ_Unmarshal_loop (Inr factory) facPtr et input (acc @ zs) i index
     = (case decode_elements (\<lambda>z k. Unmarshal factory z et input k) zs index of
          Inl err \<Rightarrow> Inl err
        | Inr (index', vs) \<Rightarrow> Inr (index', acc @ vs))"
proof (induction zs arbitrary: i acc index)
  case Nil
  then show ?case
    by (subst basicArraySSZ_Unmarshal_loop.simps) simp
next
  case (Cons z zs)
  have ih: "basicArraySSZ_Unmarshal_loop (Inr factory) facPtr et input ((acc @ [v]) @ zs) (Suc i) index'
     = (case decode_elements (\<lambda>z k. Unmarshal factory z et input k) zs index' of
          Inl err \<Rightarrow> Inl err
        | Inr (index'', vs) \<Rightarrow> Inr (index'', (acc @ [v]) @ vs))" for v index'
    using Cons.prems by (intro Cons.IH) auto
  from Cons.prems(2) have np: "\<forall>p. z \<noteq> VPtr p" by simp
  show ?case
    using Cons.prems(1) ih np
    by (subst basicArraySSZ_Unmarshal_loop.simps)
      (cases z; simp add: nth_append list_update_append split: sum.splits prod.splits)
qed

lemma makeBasicArrayDecoder_loop_run:
  "length acc = i \<Longrightarrow>
   makeBasicArrayDecoder_loop elem input (acc @ zs) i index
     = (case decode_elements (elem input) zs index of
          Inl err \<Rightarrow> Inl (Wrapf err ''failed to decode element of array'')
        | Inr (index', vs) \<Rightarrow> Inr (index', acc @ vs))"
proof (induction zs arbitrary: i acc index)
  case Nil
  then show ?case
    by (subst makeBasicArrayDecoder_loop.simps) simp
next
  case (Cons z zs)
  have ih: "makeBasicArrayDecoder_loop elem input ((acc @ [v]) @ zs) (Suc i) index'
     = (case decode_elements (elem input) zs index' of
          Inl err \<Rightarrow> Inl (Wrapf err ''failed to decode element of array'')
        | Inr (index'', vs) \<Rightarrow> Inr (index'', (acc @ [v]) @ vs))" for v index'
    using Cons.prems by (intro Cons.IH) auto
  show ?case
    using Cons.prems(1) ih
    by (subst makeBasicArrayDecoder_loop.simps)
      (simp add: nth_append list_update_append split: sum.splits prod.splits)
qed

text \<open>
  C2, as amended. A list of fixed-size elements is decoded by first decoding one
  element at the start offset; the bytes it consumed are the element size. The
  element count is the integer quotient of the length of the whole input, not of
  what remains behind the start offset, by that size, and that many elements are
  decoded one after the other (\<^verbatim>\<open>basicSliceSSZ.Unmarshal\<close> keeps the first
  element also when the quotient is zero). No check is made that the division is
  exact and there is no error for a misaligned input. An array does not divide:
  it decodes as many elements as it has, from the start offset on, whatever the
  length of the input. This holds for the decoders of decode.go and of
  types/slice_basic.go and types/array_basic.go alike.
\<close>

theorem fixed_elements_are_counted_from_the_input_length:
  assumes first1: "elem input (growConcreteSliceType ds et 1 ! 0) startOffset = Inr (index1, v1)"
    and size1: "startOffset < index1"
    and first2: "Unmarshal factory (growConcreteSliceType ds et 1 ! 0) et input startOffset = Inr (index2, v2)"
    and size2: "startOffset < index2"
    and ne: "input \<noteq> []"
    and np: "\<forall>z\<in>set zs. \<forall>p. z \<noteq> VPtr p"
  shows "(\<exists>d. makeBasicSliceDecoder (TSlice et) (Inr elem) = Inr d
            \<and> d input (VSlice ds) startOffset =
                (case decode_elements (elem input)
                        (replicate (length input div (index1 - startOffset) - 1) (Zero et)) index1 of
                   Inl err \<Rightarrow> Inl (Wrapf err ''failed to decode element of slice'')
                 | Inr (index', vs) \<Rightarrow>
                     Inr (index', VSlice (take (length input div (index1 - startOffset)) (v1 # vs))))
            \<and> (\<forall>index' vs'. d input (VSlice ds) startOffset = Inr (index', VSlice vs') \<longrightarrow>
                  length vs' = length input div (index1 - startOffset)))
       \<and> basicSliceSSZ_Unmarshal (Inr factory) (VSlice ds) (TSlice et) input startOffset =
           (case decode_elements (\<lambda>z k. Unmarshal factory z et input k)
                   (replicate (length input div (index2 - startOffset) - 1) (Zero et)) index2 of
              Inl err \<Rightarrow> Inl err
            | Inr (index', vs) \<Rightarrow> Inr (index', VSlice (v2 # vs)))
       \<and> (\<forall>index' vs'. basicSliceSSZ_Unmarshal (Inr factory) (VSlice ds) (TSlice et) input startOffset
                = Inr (index', VSlice vs') \<longrightarrow>
              length vs' = max 1 (length input div (index2 - startOffset)))
       \<and> (\<exists>d. makeBasicArrayDecoder (TArray m et) (Inr elem) = Inr d
            \<and> d input (VArray zs) startOffset =
                (case decode_elements (elem input) zs startOffset of
                   Inl err \<Rightarrow> Inl (Wrapf err ''failed to decode element of array'')
                 | Inr (index', vs) \<Rightarrow> Inr (index', VArray vs)))
       \<and> basicArraySSZ_Unmarshal (Inr factory) facPtr (VArray zs) (TArray m et) input startOffset =
           (case decode_elements (\<lambda>z k. Unmarshal factory z et input k) zs startOffset of
              Inl err \<Rightarrow> Inl err
            | Inr (index', vs) \<Rightarrow> Inr (index', VArray vs))"
proof -
  let ?n1 = "length input div (index1 - startOffset)"
  let ?n2 = "length input div (index2 - startOffset)"
  let ?run1 = "decode_elements (elem input) (replicate (?n1 - 1) (Zero et)) index1"
  let ?run2 = "decode_elements (\<lambda>z k. Unmarshal factory z et input k) (replicate (?n2 - 1) (Zero et)) index2"
  let ?list1 = "\<lambda>input' val startOffset'.
      case (val, Elem (TSlice et)) of
        (VSlice vs, Some et) \<Rightarrow>
          (case elem input' (growConcreteSliceType vs et 1 ! 0) startOffset' of
             Inl err \<Rightarrow> Inl (Wrapf err ''failed to decode element of slice'')
           | Inr (index, v) \<Rightarrow>
               (let elementSize = (if startOffset' \<le> index then index - startOffset'
                                   else 2 ^ 64 + index - startOffset')
                in if elementSize = 0 then Inl (Panic ''integer divide by zero'')
                   else makeBasicSliceDecoder_loop elem input'
                          (growConcreteSliceType ((growConcreteSliceType vs et 1)[0 := v]) et
                             (length input' div elementSize))
                          1 (length input' div elementSize) index))
      | _ \<Rightarrow> Inl (Panic ''reflect.MakeSlice of non-slice type'')"
  have one: "(growConcreteSliceType ds et (Suc 0))[0 := v] = [v]" for v
    by (cases ds) (simp_all add: growConcreteSliceType_def)
  have d1: "makeBasicSliceDecoder (TSlice et) (Inr elem) = Inr ?list1"
    by (simp add: makeBasicSliceDecoder_def)
  have r1: "?list1 input (VSlice ds) startOffset =
      (case ?run1 of
         Inl err \<Rightarrow> Inl (Wrapf err ''failed to decode element of slice'')
       | Inr (index', vs) \<Rightarrow> Inr (index', VSlice (take ?n1 (v1 # vs))))"
  proof (cases "?n1 = 0")
    case True
    then show ?thesis
      using first1 size1
      by (simp add: one growConcreteSliceType_def makeBasicSliceDecoder_loop.simps Let_def)
  next
    case False
    then have g: "growConcreteSliceType [v1] et ?n1 = [v1] @ replicate (?n1 - 1) (Zero et)"
      by (cases ?n1) (simp_all add: growConcreteSliceType_def)
    have "makeBasicSliceDecoder_loop elem input ([v1] @ replicate (?n1 - 1) (Zero et)) 1 ?n1 index1
        = (case ?run1 of
             Inl err \<Rightarrow> Inl (Wrapf err ''failed to decode element of slice'')
           | Inr (index', vs) \<Rightarrow> Inr (index', VSlice ([v1] @ vs)))"
      using False by (intro makeBasicSliceDecoder_loop_run) simp_all
    moreover have "take ?n1 (v1 # vs) = v1 # vs" if "?run1 = Inr (index', vs)" for index' vs
      using length_decode_elements [OF that] False by simp
    ultimately show ?thesis
      using first1 size1 False
      by (auto simp: one g Let_def split: sum.splits)
  qed
  have c1: "length vs' = ?n1" if "?list1 input (VSlice ds) startOffset = Inr (index', VSlice vs')" for index' vs'
  proof -
    from that r1 obtain vs where run: "?run1 = Inr (index', vs)" and vs': "vs' = take ?n1 (v1 # vs)"
      by (auto split: sum.splits)
    from length_decode_elements [OF run] vs' show ?thesis
      by auto
  qed
  have r2: "basicSliceSSZ_Unmarshal (Inr factory) (VSlice ds) (TSlice et) input startOffset =
      (case ?run2 of Inl err \<Rightarrow> Inl err | Inr (index', vs) \<Rightarrow> Inr (index', VSlice (v2 # vs)))"
  proof -
    have "basicSliceSSZ_Unmarshal_loop factory et input [v2] 1 ?n2 index2
        = (case ?run2 of Inl err \<Rightarrow> Inl err | Inr (index', vs) \<Rightarrow> Inr (index', VSlice ([v2] @ vs)))"
      by (intro basicSliceSSZ_Unmarshal_loop_run) simp
    then show ?thesis
      using first2 size2 ne
      by (simp add: basicSliceSSZ_Unmarshal_def one cong: sum.case_cong prod.case_cong)
  qed
  have c2: "length vs' = max 1 ?n2"
    if "basicSliceSSZ_Unmarshal (Inr factory) (VSlice ds) (TSlice et) input startOffset = Inr (index', VSlice vs')"
    for index' vs'
  proof -
    from that r2 obtain vs where run: "?run2 = Inr (index', vs)" and vs': "vs' = v2 # vs"
      by (auto split: sum.splits)
    from length_decode_elements [OF run] vs' show ?thesis
      by auto
  qed
  have a1: "\<exists>d. makeBasicArrayDecoder (TArray m et) (Inr elem) = Inr d
            \<and> d input (VArray zs) startOffset =
                (case decode_elements (elem input) zs startOffset of
                   Inl err \<Rightarrow> Inl (Wrapf err ''failed to decode element of array'')
                 | Inr (index', vs) \<Rightarrow> Inr (index', VArray vs))"
    using makeBasicArrayDecoder_loop_run [of "[]" 0 elem input zs startOffset]
    by (auto simp: makeBasicArrayDecoder_def split: sum.splits)
  have a2: "basicArraySSZ_Unmarshal (Inr factory) facPtr (VArray zs) (TArray m et) input startOffset =
           (case decode_elements (\<lambda>z k. Unmarshal factory z et input k) zs startOffset of
              Inl err \<Rightarrow> Inl err
            | Inr (index', vs) \<Rightarrow> Inr (index', VArray vs))"
    using basicArraySSZ_Unmarshal_loop_run [of "[]" 0 zs factory facPtr et input startOffset] np
    by (cases "zs = []") (auto simp: basicArraySSZ_Unmarshal_def split: sum.splits)
  from d1 r1 c1 have l1: "\<exists>d. makeBasicSliceDecoder (TSlice et) (Inr elem) = Inr d
            \<and> d input (VSlice ds) startOffset =
                (case ?run1 of
                   Inl err \<Rightarrow> Inl (Wrapf err ''failed to decode element of slice'')
                 | Inr (index', vs) \<Rightarrow> Inr (index', VSlice (take ?n1 (v1 # vs))))
            \<and> (\<forall>index' vs'. d input (VSlice ds) startOffset = Inr (index', VSlice vs') \<longrightarrow>
                  length vs' = ?n1)"
    by blast
  from l1 r2 c2 a1 a2 show ?thesis
    by blast
qed

theorem fixed_elements_are_counted_from_the_input_length_witness:
  "(\<exists>d. makeBasicSliceDecoder (TSlice TUint32) (Inr decodeUint32) = Inr d
       \<and> d [9, 9, 9, 9, 1, 0, 0, 0, 2, 0, 0, 0, 7] (VSlice []) 4 = Inl (Panic ''slice bounds out of range''))
   \<and> basicSliceSSZ_Unmarshal (Inr basicSSZ) (VSlice []) (TSlice TUint32)
        [9, 9, 9, 9, 1, 0, 0, 0, 2, 0, 0, 0, 7] 4 = Inl (Error ''ShortInput'')
   \<and> (\<exists>d. makeBasicArrayDecoder (TArray 2 TUint32) (Inr decodeUint32) = Inr d
       \<and> d [9, 9, 9, 9, 1, 0, 0, 0, 2, 0, 0, 0, 7] (VArray [VUint32 0, VUint32 0]) 4
           = Inr (12, VArray [VUint32 1, VUint32 2]))
   \<and> basicArraySSZ_Unmarshal (Inr basicSSZ) (Inl (Panic ''reflect: Elem of invalid type''))
        (VArray [VUint32 0, VUint32 0]) (TArray 2 TUint32) [9, 9, 9, 9, 1, 0, 0, 0, 2, 0, 0, 0, 7] 4
       = Inr (12, VArray [VUint32 1, VUint32 2])"
proof -
  let ?input = "[9, 9, 9, 9, 1, 0, 0, 0, 2, 0, 0, 0, 7] :: byte list"
  have f1: "decodeUint32 ?input (growConcreteSliceType [] TUint32 1 ! 0) 4 = Inr (8, VUint32 1)"
    by (simp add: growConcreteSliceType_def slice_def Uint32_def)
  have f2: "Unmarshal basicSSZ (growConcreteSliceType [] TUint32 1 ! 0) TUint32 ?input 4 = Inr (8, VUint32 1)"
    by (simp add: growConcreteSliceType_def basicSSZ_def read_bytes_def)
  have n: "length ?input div (8 - 4) - 1 = Suc (Suc 0)"
    by simp
  have r1: "decode_elements (decodeUint32 ?input) (replicate (Suc (Suc 0)) (Zero TUint32)) 8
      = Inl (Panic ''slice bounds out of range'')"
    by (simp add: slice_def Uint32_def)
  have r2: "decode_elements (\<lambda>z k. Unmarshal basicSSZ z TUint32 ?input k) (replicate (Suc (Suc 0)) (Zero TUint32)) 8
      = Inl (Error ''ShortInput'')"
    by (simp add: basicSSZ_def read_bytes_def)
  have a1: "decode_elements (decodeUint32 ?input) [VUint32 0, VUint32 0] 4
      = Inr (12, [VUint32 1, VUint32 2])"
    by (simp add: slice_def Uint32_def)
  have a2: "decode_elements (\<lambda>z k. Unmarshal basicSSZ z TUint32 ?input k) [VUint32 0, VUint32 0] 4
      = Inr (12, [VUint32 1, VUint32 2])"
    by (simp add: basicSSZ_def read_bytes_def)
  show ?thesis
    using fixed_elements_are_counted_from_the_input_length
      [of decodeUint32 ?input "[]" TUint32 4 8 "VUint32 1" basicSSZ 8 "VUint32 1"
          "[VUint32 0, VUint32 0]" 2 "Inl (Panic ''reflect: Elem of invalid type'')", OF f1 _ f2]
    unfolding n r1 r2 a1 a2 by simp blast
qed

end
